theory Spec2Isabelle
  imports Complex_Main
begin

section \<open>Numbers, vectors and faults\<close>

text \<open>
  The source computes with \<open>double\<close>. The model computes with \<open>real\<close>: rounding and
  overflow are not modelled. A division by zero gives an infinity or a NaN in the
  source and has no real value; the model stops there with the fault \<open>NonFinite\<close>.
  Reading a vector out of range and dereferencing a null pointer are undefined
  behaviour in the source; the model stops with \<open>OutOfRange\<close> and \<open>NullPointer\<close>.
\<close>

datatype fault = NonFinite | OutOfRange | NullPointer

definition fdiv :: "real \<Rightarrow> real \<Rightarrow> fault + real" where
  "fdiv x y = (if y = 0 then Inl NonFinite else Inr (x / y))"

text \<open>A fault of one step is the fault of the whole computation.\<close>

definition bindF :: "fault + 'a \<Rightarrow> ('a \<Rightarrow> fault + 'b) \<Rightarrow> fault + 'b" where
  "bindF r f = (case r of Inl e \<Rightarrow> Inl e | Inr v \<Rightarrow> f v)"

datatype Vector3D = Vec3 real real real

definition Zero3 :: Vector3D where
  "Zero3 = Vec3 0 0 0"

fun vadd :: "Vector3D \<Rightarrow> Vector3D \<Rightarrow> Vector3D" where
  "vadd (Vec3 x1 y1 z1) (Vec3 x2 y2 z2) = Vec3 (x1 + x2) (y1 + y2) (z1 + z2)"

fun vsub :: "Vector3D \<Rightarrow> Vector3D \<Rightarrow> Vector3D" where
  "vsub (Vec3 x1 y1 z1) (Vec3 x2 y2 z2) = Vec3 (x1 - x2) (y1 - y2) (z1 - z2)"

fun smul :: "real \<Rightarrow> Vector3D \<Rightarrow> Vector3D" where
  "smul k (Vec3 x y z) = Vec3 (k * x) (k * y) (k * z)"

fun dot :: "Vector3D \<Rightarrow> Vector3D \<Rightarrow> real" where
  "dot (Vec3 x1 y1 z1) (Vec3 x2 y2 z2) = x1 * x2 + y1 * y2 + z1 * z2"

fun cross :: "Vector3D \<Rightarrow> Vector3D \<Rightarrow> Vector3D" where
  "cross (Vec3 x1 y1 z1) (Vec3 x2 y2 z2) =
     Vec3 (y1 * z2 - z1 * y2) (z1 * x2 - x1 * z2) (x1 * y2 - y1 * x2)"

text \<open>\<open>norm()\<close> and \<open>mag()\<close> are both the Euclidean length.\<close>

definition mag :: "Vector3D \<Rightarrow> real" where
  "mag v = sqrt (dot v v)"

text \<open>The component-wise mean written out in \<open>clusterPoint\<close> and \<open>endsOfCluster\<close>.\<close>

fun mean3 :: "Vector3D \<Rightarrow> Vector3D \<Rightarrow> Vector3D" where
  "mean3 (Vec3 x1 y1 z1) (Vec3 x2 y2 z2) =
     Vec3 ((x1 + x2) / 2) ((y1 + y2) / 2) ((z1 + z2) / 2)"

section \<open>Data model\<close>

text \<open>
  A hit is a \<open>PlanarModuleCluster const*\<close>: the model names a hit by its address, and a
  pointer that may be null is an \<open>option\<close>. A cluster is the pair of pointers of the source.
\<close>

type_synonym hit = nat

type_synonym cluster = "hit option \<times> hit option"

text \<open>
  The geometry is an external collaborator. \<open>BinningData\<close> gives the number of bins
  (\<open>bins()\<close> in the source, \<open>nBins\<close> here), the bin boundaries and the bin search of one
  local axis; a surface has the binning of its two
  local axes and its local-to-global transform. The detector says, for every hit, the address
  of its reference surface and its local and global coordinates.
\<close>

record BinningData =
  nBins :: nat
  boundaries :: "real list"
  searchLocal :: "real \<times> real \<Rightarrow> nat"

record Surface =
  segmentation :: "BinningData \<times> BinningData"
  localToGlobal :: "real \<times> real \<Rightarrow> Vector3D"

record Detector =
  referenceSurface :: "hit \<Rightarrow> nat"
  surfaceAt :: "nat \<Rightarrow> Surface"
  localCoords :: "hit \<Rightarrow> real \<times> real"
  globalCoords :: "hit \<Rightarrow> Vector3D"

text \<open>The fields of \<open>DoubleHitSpacePointConfig\<close> that the source reads.\<close>

record DoubleHitSpacePointConfig =
  diffDist :: real
  diffTheta2 :: real
  diffPhi2 :: real
  vertex :: Vector3D
  stripLengthTolerance :: real
  stripLengthGapTolerance :: real
  usePerpProj :: bool
  clusterFrontHits :: bool
  clusterBackHits :: bool

record DoubleHitSpacePoint =
  hitModuleFront :: cluster
  hitModuleBack :: cluster
  spacePoint :: Vector3D

text \<open>
  \<open>SpacePointParameters\<close>, the working set of one candidate. The fields \<open>q\<close>, \<open>r\<close>, ... of
  the source carry the prefix \<open>spa\<close> here.
\<close>

record SpacePointParameters =
  spa_q :: Vector3D
  spa_r :: Vector3D
  spa_s :: Vector3D
  spa_t :: Vector3D
  spa_qs :: Vector3D
  spa_rt :: Vector3D
  spa_qmag :: real
  spa_m :: real
  spa_n :: real
  spa_limit :: real
  spa_limitExtended :: real

text \<open>
  Modelled from the spec: \<open>SpacePointParameters::reset()\<close> is declared in a header that is
  not among the sources. The spec says that the working set is reset to defaults for every
  candidate, that the limit is normally 1, and the source treats \<open>n = 0\<close> as "not yet
  calculated".
\<close>

definition reset :: SpacePointParameters where
  "reset = \<lparr> spa_q = Zero3, spa_r = Zero3, spa_s = Zero3, spa_t = Zero3,
             spa_qs = Zero3, spa_rt = Zero3, spa_qmag = 0, spa_m = 0, spa_n = 0,
             spa_limit = 1, spa_limitExtended = 0 \<rparr>"

section \<open>Strip endpoint resolver\<close>

definition binningData :: "Detector \<Rightarrow> hit \<Rightarrow> BinningData \<times> BinningData" where
  "binningData det h = segmentation (surfaceAt det (referenceSurface det h))"

definition binOfHit :: "Detector \<Rightarrow> hit \<Rightarrow> nat \<times> nat" where
  "binOfHit det h =
     (let local = localCoords det h;
          binData = binningData det h
      in (searchLocal (fst binData) local, searchLocal (snd binData) local))"

definition endsOfStrip :: "Detector \<Rightarrow> hit \<Rightarrow> fault + (Vector3D \<times> Vector3D)" where
  "endsOfStrip det h =
     (let local = localCoords det h;
          sur = surfaceAt det (referenceSurface det h);
          binData = segmentation sur;
          boundariesX = boundaries (fst binData);
          boundariesY = boundaries (snd binData);
          binX = searchLocal (fst binData) local;
          binY = searchLocal (snd binData) local
      in if binX + 1 < length boundariesX \<and> binY + 1 < length boundariesY then
           (let ends =
              (if boundariesX ! (binX + 1) - boundariesX ! binX
                    < boundariesY ! (binY + 1) - boundariesY ! binY
               then (((boundariesX ! binX + boundariesX ! (binX + 1)) / 2,
                        boundariesY ! (binY + 1)),
                     ((boundariesX ! binX + boundariesX ! (binX + 1)) / 2,
                        boundariesY ! binY))
               else ((boundariesX ! binX,
                        (boundariesY ! binY + boundariesY ! (binY + 1)) / 2),
                     (boundariesX ! (binX + 1),
                        (boundariesY ! binY + boundariesY ! (binY + 1)) / 2)))
            in Inr (localToGlobal sur (fst ends), localToGlobal sur (snd ends)))
         else Inl OutOfRange)"

definition endsOfCluster :: "Detector \<Rightarrow> cluster \<Rightarrow> fault + (Vector3D \<times> Vector3D)" where
  "endsOfCluster det cl =
     (case fst cl of
        None \<Rightarrow> Inl NullPointer
      | Some h1 \<Rightarrow>
          bindF (endsOfStrip det h1) (\<lambda>ends1.
            (case snd cl of
               None \<Rightarrow> Inr ends1
             | Some h2 \<Rightarrow>
                 bindF (endsOfStrip det h2) (\<lambda>ends2.
                   Inr (mean3 (fst ends1) (fst ends2), mean3 (snd ends1) (snd ends2))))))"

section \<open>Space-point solver\<close>

text \<open>The threshold \<open>10e-7\<close> of the source is \<open>1 / 1000000\<close>.\<close>

definition calcPerpProj :: "Vector3D \<Rightarrow> Vector3D \<Rightarrow> Vector3D \<Rightarrow> Vector3D \<Rightarrow> real" where
  "calcPerpProj a c q r =
     (let ac = vsub c a;
          qr = dot q r;
          denom = dot q q - qr * qr
      in if \<bar>denom\<bar> > 1 / 1000000
         then (dot ac r * qr - dot ac q * dot r r) / denom
         else 1)"

text \<open>
  \<open>recoverSpacePoint\<close> changes its argument in place and returns a flag; the model returns
  the flag together with the changed working set. Its body is modelled in the two parts
  that the source's comments separate: the easy exits, which end with both parameters
  known to be within the extended limit, and the treatment of an overshoot of both
  parameters in the same direction.
\<close>

definition recoverEasyExit ::
  "SpacePointParameters \<Rightarrow> DoubleHitSpacePointConfig \<Rightarrow> fault + (bool \<times> SpacePointParameters)"
where
  "recoverEasyExit spaPoPa cfg =
     (if stripLengthGapTolerance cfg \<le> 0 then Inr (False, spaPoPa)
      else
        (let p1 = spaPoPa\<lparr>spa_qmag := mag (spa_q spaPoPa)\<rparr> in
         bindF (fdiv (stripLengthGapTolerance cfg) (spa_qmag p1)) (\<lambda>g.
           (let p2 = p1\<lparr>spa_limitExtended := spa_limit p1 + g\<rparr> in
            if \<bar>spa_m p2\<bar> > spa_limitExtended p2 then Inr (False, p2)
            else
              bindF (if spa_n p2 = 0
                     then bindF (fdiv (- dot (spa_t p2) (spa_qs p2)) (dot (spa_r p2) (spa_qs p2)))
                            (\<lambda>v. Inr (p2\<lparr>spa_n := v\<rparr>))
                     else Inr p2) (\<lambda>p3.
                if \<bar>spa_n p3\<bar> > spa_limitExtended p3 then Inr (False, p3)
                else Inr (True, p3))))))"

definition recoverOvershoot :: "SpacePointParameters \<Rightarrow> fault + (bool \<times> SpacePointParameters)" where
  "recoverOvershoot spaPoPa =
     bindF (fdiv (dot (spa_q spaPoPa) (spa_r spaPoPa)) (spa_qmag spaPoPa * spa_qmag spaPoPa))
       (\<lambda>secOnFirstScale.
         if spa_m spaPoPa > 1 \<and> spa_n spaPoPa > 1 then
           (let mOvershoot = spa_m spaPoPa - 1;
                nOvershoot = (spa_n spaPoPa - 1) * secOnFirstScale;
                biggerOvershoot = (if mOvershoot > nOvershoot then mOvershoot else nOvershoot)
            in bindF (fdiv biggerOvershoot secOnFirstScale) (\<lambda>d.
                 (let p = spaPoPa\<lparr>spa_m := spa_m spaPoPa - biggerOvershoot,
                                 spa_n := spa_n spaPoPa - d\<rparr>
                  in Inr (\<bar>spa_m p\<bar> < spa_limit p \<and> \<bar>spa_n p\<bar> < spa_limit p, p))))
         else if spa_m spaPoPa < - 1 \<and> spa_n spaPoPa < - 1 then
           (let mOvershoot = - (spa_m spaPoPa + 1);
                nOvershoot = - (spa_n spaPoPa + 1) * secOnFirstScale;
                biggerOvershoot = (if mOvershoot > nOvershoot then mOvershoot else nOvershoot)
            in bindF (fdiv biggerOvershoot secOnFirstScale) (\<lambda>d.
                 (let p = spaPoPa\<lparr>spa_m := spa_m spaPoPa + biggerOvershoot,
                                 spa_n := spa_n spaPoPa + d\<rparr>
                  in Inr (\<bar>spa_m p\<bar> < spa_limit p \<and> \<bar>spa_n p\<bar> < spa_limit p, p))))
         else Inr (False, spaPoPa))"

definition recoverSpacePoint ::
  "SpacePointParameters \<Rightarrow> DoubleHitSpacePointConfig \<Rightarrow> fault + (bool \<times> SpacePointParameters)"
where
  "recoverSpacePoint spaPoPa cfg =
     bindF (recoverEasyExit spaPoPa cfg) (\<lambda>(goOn, p).
       if goOn then recoverOvershoot p else Inr (False, p))"

text \<open>
  The assignment \<open>hits.spacePoint = 0.5 * (ends1.first + ends1.second + m * q)\<close>, which the
  source writes once after the direct solution and once after a recovery.
\<close>

definition storePoint ::
  "DoubleHitSpacePoint \<Rightarrow> Vector3D \<times> Vector3D \<Rightarrow> SpacePointParameters \<Rightarrow> DoubleHitSpacePoint"
where
  "storePoint hits ends1 spaPoPa =
     hits\<lparr>spacePoint :=
       smul (1 / 2) (vadd (vadd (fst ends1) (snd ends1)) (smul (spa_m spaPoPa) (spa_q spaPoPa)))\<rparr>"

text \<open>
  One pass of the loop of \<open>calculateSpacePoints\<close> over a candidate \<open>hits\<close>. The null test
  on the configuration selects a default-constructed one, declared in the absent header;
  the model starts from the configuration \<open>dhCfg\<close> in force.

  In the source the assignment to \<open>resultPerpProj\<close> binds weaker than the comparison
  \<open>\<le> 0.\<close>: the variable receives the truth value of the comparison, that is 1 or 0,
  and the condition holds when it is not 0.
\<close>

definition calculateSpacePoint ::
  "Detector \<Rightarrow> DoubleHitSpacePointConfig \<Rightarrow> DoubleHitSpacePoint \<Rightarrow> fault + DoubleHitSpacePoint"
where
  "calculateSpacePoint det dhCfg hits =
     (if spacePoint hits \<noteq> Zero3 then Inr hits
      else
        bindF (endsOfCluster det (hitModuleFront hits)) (\<lambda>ends1.
        bindF (endsOfCluster det (hitModuleBack hits)) (\<lambda>ends2.
          (let p0 = reset\<lparr>spa_q := vsub (fst ends1) (snd ends1),
                          spa_r := vsub (fst ends2) (snd ends2)\<rparr>;
               resultPerpProj =
                 (if calcPerpProj (fst ends1) (fst ends2) (spa_q p0) (spa_r p0) \<le> 0
                  then 1 else 0)
           in if usePerpProj dhCfg \<and> resultPerpProj \<noteq> 0
              then Inr (hits\<lparr>spacePoint := vadd (fst ends1) (smul resultPerpProj (spa_q p0))\<rparr>)
              else
                (let p1 = p0\<lparr>spa_s := vsub (vadd (fst ends1) (snd ends1)) (smul 2 (vertex dhCfg)),
                             spa_t := vsub (vadd (fst ends2) (snd ends2)) (smul 2 (vertex dhCfg))\<rparr>;
                     p2 = p1\<lparr>spa_qs := cross (spa_q p1) (spa_s p1),
                             spa_rt := cross (spa_r p1) (spa_t p1)\<rparr>
                 in bindF (fdiv (- dot (spa_s p2) (spa_rt p2)) (dot (spa_q p2) (spa_rt p2))) (\<lambda>m.
                      (let p3 = p2\<lparr>spa_m := m\<rparr>;
                           p4 = (if spa_limit p3 = 1 \<and> stripLengthTolerance dhCfg \<noteq> 0
                                 then p3\<lparr>spa_limit := 1 + stripLengthTolerance dhCfg\<rparr>
                                 else p3)
                       in bindF (if \<bar>spa_m p4\<bar> \<le> spa_limit p4
                                 then bindF (fdiv (- dot (spa_t p4) (spa_qs p4))
                                                  (dot (spa_r p4) (spa_qs p4)))
                                        (\<lambda>n. Inr (\<bar>n\<bar> \<le> spa_limit p4, p4\<lparr>spa_n := n\<rparr>))
                                 else Inr (False, p4)) (\<lambda>(resolved, p5).
                            if resolved then Inr (storePoint hits ends1 p5)
                            else
                              bindF (recoverSpacePoint p5 dhCfg) (\<lambda>(recovered, p6).
                                if recovered then Inr (storePoint hits ends1 p6)
                                else Inr hits)))))))))"

text \<open>
  The loop updates every candidate of the storage in place and independently of the
  others (the working set is reset for each), so it is a map over the storage.
\<close>

definition calculateSpacePoints ::
  "Detector \<Rightarrow> DoubleHitSpacePointConfig \<Rightarrow> DoubleHitSpacePoint list
     \<Rightarrow> (fault + DoubleHitSpacePoint) list"
where
  "calculateSpacePoints det dhCfg spacePointStorage =
     map (calculateSpacePoint det dhCfg) spacePointStorage"

section \<open>Hit clusterer\<close>

text \<open>
  \<open>sortHits\<close> reads \<open>hits[0]\<close> unconditionally, builds the matrix of null pointers and
  then fills it; the loop that fills it is \<open>fillHits\<close>. The empty matrix is the answer
  for hits of several surfaces.
\<close>

fun fillHits ::
  "Detector \<Rightarrow> nat \<Rightarrow> hit option list list \<Rightarrow> hit list \<Rightarrow> fault + hit option list list"
where
  "fillHits det surface bins [] = Inr bins"
| "fillHits det surface bins (h # hs) =
     (if referenceSurface det h \<noteq> surface then Inr []
      else
        (let bin = binOfHit det h in
         if fst bin < length bins \<and> snd bin < length (bins ! fst bin)
         then fillHits det surface (bins[fst bin := (bins ! fst bin)[snd bin := Some h]]) hs
         else Inl OutOfRange))"

definition sortHits :: "Detector \<Rightarrow> hit list \<Rightarrow> fault + hit option list list" where
  "sortHits det hits =
     (case hits of
        [] \<Rightarrow> Inl OutOfRange
      | h0 # _ \<Rightarrow>
          (let surface = referenceSurface det h0;
               binData = binningData det h0;
               bins = replicate (nBins (fst binData)) (replicate (nBins (snd binData)) None)
           in fillHits det surface bins hits))"

text \<open>
  The body of the two scanning loops of \<open>clusterSpacePoints\<close>, which differ only in the
  order of the indices: \<open>atEnd\<close> is the test \<open>iX == bins.size() - 1\<close> (respectively
  \<open>iY == bins[0].size() - 1\<close>), \<open>cell\<close> is \<open>bins[iX][iY]\<close>, and the state is the pair
  \<open>cluster\<close> with the vector \<open>clusters\<close>.
\<close>

definition clusterStep ::
  "bool \<Rightarrow> hit option \<Rightarrow> cluster \<times> cluster list \<Rightarrow> cluster \<times> cluster list"
where
  "clusterStep atEnd cell st =
     (let cluster = fst st; clusters = snd st in
      if cell \<noteq> None \<and> fst cluster = None then
        (if atEnd then ((cell, None), clusters @ [(cell, None)])
         else ((cell, snd cluster), clusters))
      else if fst cluster \<noteq> None then
        ((cell, cell), clusters @ [(fst cluster, cell)])
      else (cluster, clusters))"

text \<open>
  Every row of the matrix has the length of row 0 (\<open>sortHits\<close> resizes them so), and the
  loops stay below \<open>bins.size()\<close> and \<open>bins[0].size()\<close>: the reads \<open>bins[iX][iY]\<close> are in
  range.
\<close>

definition scanBins :: "hit option list list \<Rightarrow> cluster list" where
  "scanBins bins =
     snd (if length bins > length (bins ! 0)
          then foldl (\<lambda>st iY.
                 foldl (\<lambda>st iX. clusterStep (iX = length bins - 1) (bins ! iX ! iY) st)
                   st [0..<length bins])
                 ((None, None), []) [0..<length (bins ! 0)]
          else foldl (\<lambda>st iX.
                 foldl (\<lambda>st iY. clusterStep (iY = length (bins ! 0) - 1) (bins ! iX ! iY) st)
                   st [0..<length (bins ! 0)])
                 ((None, None), []) [0..<length bins])"

definition clusterSpacePoints :: "Detector \<Rightarrow> hit list \<Rightarrow> bool \<Rightarrow> fault + cluster list" where
  "clusterSpacePoints det hits performClustering =
     (if length hits = 1 then Inr [(Some (hits ! 0), None)]
      else if performClustering then
        bindF (sortHits det hits) (\<lambda>bins.
          if bins = [] then Inr [] else Inr (scanBins bins))
      else Inr (map (\<lambda>hit. (Some hit, None)) hits))"

section \<open>Cluster matcher\<close>

definition clusterPoint :: "Detector \<Rightarrow> cluster \<Rightarrow> fault + Vector3D" where
  "clusterPoint det cl =
     (case fst cl of
        None \<Rightarrow> Inl NullPointer
      | Some h1 \<Rightarrow>
          (case snd cl of
             None \<Rightarrow> Inr (globalCoords det h1)
           | Some h2 \<Rightarrow> Inr (mean3 (globalCoords det h1) (globalCoords det h2))))"

text \<open>
  The angles \<open>phi()\<close> and \<open>theta()\<close> of a vector are defined outside the sources: they are
  parameters of the model.
\<close>

definition differenceOfHits ::
  "(Vector3D \<Rightarrow> real) \<Rightarrow> (Vector3D \<Rightarrow> real) \<Rightarrow> Vector3D \<Rightarrow> Vector3D
     \<Rightarrow> DoubleHitSpacePointConfig \<Rightarrow> real"
where
  "differenceOfHits phi theta pos1 pos2 cfg =
     (if mag (vsub pos1 pos2) > diffDist cfg then - 1
      else
        (let phi1 = phi (vsub pos1 (vertex cfg));
             theta1 = theta (vsub pos1 (vertex cfg));
             phi2 = phi (vsub pos2 (vertex cfg));
             theta2 = theta (vsub pos2 (vertex cfg));
             dTheta2 = (theta1 - theta2) * (theta1 - theta2)
         in if dTheta2 > diffTheta2 cfg then - 1
            else
              (let dPhi2 = (phi1 - phi2) * (phi1 - phi2)
               in if dPhi2 > diffPhi2 cfg then - 1
                  else dTheta2 + dPhi2)))"

text \<open>\<open>std::numeric_limits<double>::max()\<close>.\<close>

definition DBL_MAX :: real where
  "DBL_MAX = (2 - 1 / 2 ^ 52) * 2 ^ 1023"

text \<open>
  The inner loop of \<open>addHits\<close> over the back clusters from index \<open>iClustersBack\<close> on, with
  the state \<open>(diffMin, clusterMin)\<close>.
\<close>

fun closestBack ::
  "Detector \<Rightarrow> (Vector3D \<Rightarrow> real) \<Rightarrow> (Vector3D \<Rightarrow> real) \<Rightarrow> DoubleHitSpacePointConfig
     \<Rightarrow> Vector3D \<Rightarrow> cluster list \<Rightarrow> nat \<Rightarrow> real \<times> nat \<Rightarrow> fault + (real \<times> nat)"
where
  "closestBack det phi theta dhCfg clusterPointFront [] iClustersBack st = Inr st"
| "closestBack det phi theta dhCfg clusterPointFront (cb # cbs) iClustersBack st =
     bindF (clusterPoint det cb) (\<lambda>clusterPointBack.
       (let currentDiff = differenceOfHits phi theta clusterPointFront clusterPointBack dhCfg
        in closestBack det phi theta dhCfg clusterPointFront cbs (iClustersBack + 1)
             (if currentDiff < fst st \<and> currentDiff \<ge> 0
              then (currentDiff, iClustersBack) else st)))"

text \<open>
  Modelled from the spec: the default-constructed \<open>DoubleHitSpacePoint\<close> is declared in
  the absent header. The spec says that a candidate's position is initially unset; the
  guard of \<open>calculateSpacePoints\<close> takes the zero vector for the unset position.
\<close>

definition newSpacePoint :: "cluster \<Rightarrow> cluster \<Rightarrow> DoubleHitSpacePoint" where
  "newSpacePoint front back =
     \<lparr> hitModuleFront = front, hitModuleBack = back, spacePoint = Zero3 \<rparr>"

text \<open>The outer loop of \<open>addHits\<close> over the front clusters.\<close>

fun matchClusters ::
  "Detector \<Rightarrow> (Vector3D \<Rightarrow> real) \<Rightarrow> (Vector3D \<Rightarrow> real) \<Rightarrow> DoubleHitSpacePointConfig
     \<Rightarrow> cluster list \<Rightarrow> cluster list \<Rightarrow> DoubleHitSpacePoint list
     \<Rightarrow> fault + DoubleHitSpacePoint list"
where
  "matchClusters det phi theta dhCfg clustersBack [] spacePoints = Inr spacePoints"
| "matchClusters det phi theta dhCfg clustersBack (cf # cfs) spacePoints =
     bindF (clusterPoint det cf) (\<lambda>clusterPointFront.
       bindF (closestBack det phi theta dhCfg clusterPointFront clustersBack 0
                (DBL_MAX, length clustersBack)) (\<lambda>best.
         matchClusters det phi theta dhCfg clustersBack cfs
           (if snd best < length clustersBack
            then spacePoints @ [newSpacePoint cf (clustersBack ! snd best)]
            else spacePoints)))"

definition addHits ::
  "Detector \<Rightarrow> (Vector3D \<Rightarrow> real) \<Rightarrow> (Vector3D \<Rightarrow> real) \<Rightarrow> DoubleHitSpacePointConfig
     \<Rightarrow> DoubleHitSpacePoint list \<Rightarrow> hit list \<Rightarrow> hit list
     \<Rightarrow> fault + DoubleHitSpacePoint list"
where
  "addHits det phi theta dhCfg spacePoints hitsFront hitsBack =
     (if hitsFront = [] \<or> hitsBack = [] then Inr spacePoints
      else
        bindF (clusterSpacePoints det hitsFront (clusterFrontHits dhCfg)) (\<lambda>clustersFront.
          if clustersFront = [] then Inr spacePoints
          else
            bindF (clusterSpacePoints det hitsBack (clusterBackHits dhCfg)) (\<lambda>clustersBack.
              if clustersBack = [] then Inr spacePoints
              else matchClusters det phi theta dhCfg clustersBack clustersFront spacePoints)))"

section \<open>The recovery procedure as the specification words it\<close>


text \<open>
  The working set with which \<open>calculateSpacePoints\<close> calls \<open>recoverSpacePoint\<close> for strips
  with the ends \<open>a\<close>, \<open>b\<close> (front) and \<open>c\<close>, \<open>d\<close> (back): \<open>m\<close> is solved, and \<open>n\<close> is
  solved or still 0.
\<close>

definition solveState ::
  "DoubleHitSpacePointConfig \<Rightarrow> Vector3D \<Rightarrow> Vector3D \<Rightarrow> Vector3D \<Rightarrow> Vector3D \<Rightarrow> real \<Rightarrow> real
     \<Rightarrow> SpacePointParameters"
where
  "solveState dhCfg a b c d m n =
     \<lparr> spa_q = vsub a b, spa_r = vsub c d,
       spa_s = vsub (vadd a b) (smul 2 (vertex dhCfg)),
       spa_t = vsub (vadd c d) (smul 2 (vertex dhCfg)),
       spa_qs = cross (vsub a b) (vsub (vadd a b) (smul 2 (vertex dhCfg))),
       spa_rt = cross (vsub c d) (vsub (vadd c d) (smul 2 (vertex dhCfg))),
       spa_qmag = 0, spa_m = m, spa_n = n,
       spa_limit = (if stripLengthTolerance dhCfg \<noteq> 0 then 1 + stripLengthTolerance dhCfg else 1),
       spa_limitExtended = 0 \<rparr>"

text \<open>
  The closed forms of the parameters \<open>m\<close> and \<open>n\<close> as the specification gives them, for
  the vertex \<open>v\<close> and the strip ends \<open>a\<close>, \<open>b\<close> (front) and \<open>c\<close>, \<open>d\<close> (back).
\<close>

definition solveM :: "Vector3D \<Rightarrow> Vector3D \<Rightarrow> Vector3D \<Rightarrow> Vector3D \<Rightarrow> Vector3D \<Rightarrow> real" where
  "solveM v a b c d =
     (let q = vsub a b; r = vsub c d;
          s = vsub (vadd a b) (smul 2 v); t = vsub (vadd c d) (smul 2 v);
          rt = cross r t
      in - dot s rt / dot q rt)"

definition solveN :: "Vector3D \<Rightarrow> Vector3D \<Rightarrow> Vector3D \<Rightarrow> Vector3D \<Rightarrow> Vector3D \<Rightarrow> real" where
  "solveN v a b c d =
     (let q = vsub a b; r = vsub c d;
          s = vsub (vadd a b) (smul 2 v); t = vsub (vadd c d) (smul 2 v);
          qs = cross q s
      in - dot t qs / dot r qs)"

section \<open>Detectors for the examples\<close>

text \<open>
  A surface with a single bin whose strip has the top end \<open>a\<close> and the bottom end \<open>b\<close>,
  for a strip parallel to the global x-y plane: the local x axis runs along the strip
  from \<open>a\<close> to \<open>b\<close>, and the local y axis across it in that plane.
\<close>

fun perpXY :: "Vector3D \<Rightarrow> Vector3D" where
  "perpXY (Vec3 x y z) = Vec3 (- y) x 0"

definition stripSurface :: "Vector3D \<Rightarrow> Vector3D \<Rightarrow> Surface" where
  "stripSurface a b =
     \<lparr> segmentation =
         (\<lparr> nBins = 1, boundaries = [0, 1], searchLocal = (\<lambda>local. 0) \<rparr>,
          \<lparr> nBins = 1, boundaries = [0, 1], searchLocal = (\<lambda>local. 0) \<rparr>),
       localToGlobal = (\<lambda>local.
         vadd (vadd (smul (1 - fst local) a) (smul (fst local) b))
              (smul (snd local - 1 / 2) (perpXY (vsub b a)))) \<rparr>"

text \<open>
  Two such surfaces: hit 0 lies in the middle of the strip from \<open>a\<close> to \<open>b\<close> on surface 0,
  every other hit in the middle of the strip from \<open>c\<close> to \<open>d\<close> on the surface of its own
  address.
\<close>

definition twoStrips :: "Vector3D \<Rightarrow> Vector3D \<Rightarrow> Vector3D \<Rightarrow> Vector3D \<Rightarrow> Detector" where
  "twoStrips a b c d =
     \<lparr> referenceSurface = (\<lambda>h. h),
       surfaceAt = (\<lambda>i. if i = 0 then stripSurface a b else stripSurface c d),
       localCoords = (\<lambda>h. (1 / 2, 1 / 2)),
       globalCoords = (\<lambda>h. if h = 0 then mean3 a b else mean3 c d) \<rparr>"

text \<open>The candidate of the front hit 0 and the back hit 1, not yet solved.\<close>

definition candidate01 :: DoubleHitSpacePoint where
  "candidate01 = newSpacePoint (Some 0, None) (Some 1, None)"

text \<open>A configuration with the vertex \<open>v\<close>, the two strip tolerances and the mode flag.\<close>

definition config :: "Vector3D \<Rightarrow> real \<Rightarrow> real \<Rightarrow> bool \<Rightarrow> DoubleHitSpacePointConfig" where
  "config v tolerance gapTolerance perpProj =
     \<lparr> diffDist = 100, diffTheta2 = 1, diffPhi2 = 1, vertex = v,
       stripLengthTolerance = tolerance, stripLengthGapTolerance = gapTolerance,
       usePerpProj = perpProj, clusterFrontHits = True, clusterBackHits = True \<rparr>"

section \<open>The scan of the occupancy grid, cell by cell\<close>

text \<open>
  The clusters that one step of the scan appends when \<open>first\<close> is the first hit of the
  pending cluster, and the clusters that the scan appends over a sequence of cells, each
  given with its test \<open>atEnd\<close>.
\<close>

definition scanOut :: "hit option \<Rightarrow> bool \<Rightarrow> hit option \<Rightarrow> cluster list" where
  "scanOut first atEnd cell =
     (if cell \<noteq> None \<and> first = None then (if atEnd then [(cell, None)] else [])
      else if first \<noteq> None then [(first, cell)]
      else [])"

fun scanCells :: "hit option \<Rightarrow> (bool \<times> hit option) list \<Rightarrow> cluster list" where
  "scanCells first [] = []"
| "scanCells first (c # cs) = scanOut first (fst c) (snd c) @ scanCells (snd c) cs"

text \<open>
  The cells in the order of the scan, for \<open>nOuter\<close> steps of the outer loop and
  \<open>nInner\<close> steps of the inner one: each cell with its two indices, the test \<open>atEnd\<close>
  and its content.
\<close>

definition gridCells ::
  "nat \<Rightarrow> nat \<Rightarrow> (nat \<Rightarrow> nat \<Rightarrow> hit option) \<Rightarrow> ((nat \<times> nat) \<times> bool \<times> hit option) list"
where
  "gridCells nOuter nInner cellAt =
     concat (map (\<lambda>j. map (\<lambda>i. ((j, i), i = nInner - 1, cellAt j i)) [0..<nInner])
               [0..<nOuter])"

text \<open>
  Two cells follow each other in a scan line: unless the first is at the end of its line,
  the second has the next inner index.
\<close>

definition nextInLine ::
  "(nat \<times> nat) \<times> bool \<times> hit option \<Rightarrow> (nat \<times> nat) \<times> bool \<times> hit option \<Rightarrow> bool"
where
  "nextInLine e e' = (fst (snd e) \<or> fst e' = (fst (fst e), snd (fst e) + 1))"

text \<open>
  A hit stays in the occupancy grid when it is the last hit of the call that falls into
  its cell: later hits overwrite earlier ones.
\<close>

definition lastInCell :: "Detector \<Rightarrow> hit list \<Rightarrow> hit \<Rightarrow> bool" where
  "lastInCell det hits h =
     (h \<in> set hits \<and> last (filter (\<lambda>h'. binOfHit det h' = binOfHit det h) hits) = h)"

text \<open>
  A detector of a single surface with a grid of \<open>nx\<close> times \<open>ny\<close> bins of unit size, in
  which the hit \<open>h\<close> lies in the middle of the bin \<open>binOf h\<close>.
\<close>

definition gridDetector :: "nat \<Rightarrow> nat \<Rightarrow> (hit \<Rightarrow> nat \<times> nat) \<Rightarrow> Detector" where
  "gridDetector nx ny binOf =
     \<lparr> referenceSurface = (\<lambda>h. 0),
       surfaceAt = (\<lambda>i.
         \<lparr> segmentation =
             (\<lparr> nBins = nx, boundaries = map real [0..<nx + 1],
                 searchLocal = (\<lambda>local. nat \<lfloor>fst local\<rfloor>) \<rparr>,
              \<lparr> nBins = ny, boundaries = map real [0..<ny + 1],
                 searchLocal = (\<lambda>local. nat \<lfloor>snd local\<rfloor>) \<rparr>),
           localToGlobal = (\<lambda>local. Vec3 (fst local) (snd local) 0) \<rparr>),
       localCoords = (\<lambda>h. (real (fst (binOf h)) + 1 / 2, real (snd (binOf h)) + 1 / 2)),
       globalCoords = (\<lambda>h. Vec3 (real (fst (binOf h)) + 1 / 2) (real (snd (binOf h)) + 1 / 2) 0) \<rparr>"

text \<open>
  Four hits on a grid of 3 times 2 bins: the hits 0 and 1 fall into the bin \<open>(1, 0)\<close>, the
  hit 2 into \<open>(2, 0)\<close> and the hit 3 into \<open>(0, 1)\<close>.
\<close>

definition exampleBins :: "hit \<Rightarrow> nat \<times> nat" where
  "exampleBins h =
     (if h = 0 then (1, 0) else if h = 1 then (1, 0) else if h = 2 then (2, 0) else (0, 1))"

section \<open>Basic facts\<close>

lemma bindF_Inr [simp]: "bindF (Inr v) f = f v"
  by (simp add: bindF_def)

lemma bindF_Inl [simp]: "bindF (Inl e) f = Inl e"
  by (simp add: bindF_def)

lemma fdiv_nonzero [simp]: "y \<noteq> 0 \<Longrightarrow> fdiv x y = Inr (x / y)"
  by (simp add: fdiv_def)

lemma fdiv_zero [simp]: "fdiv x 0 = Inl NonFinite"
  by (simp add: fdiv_def)

lemma mag_Vec3: "mag (Vec3 x y z) = sqrt (x * x + y * y + z * z)"
  by (simp add: mag_def)

lemma mag_eq_0_iff: "mag v = 0 \<longleftrightarrow> v = Zero3"
proof (cases v)
  case (Vec3 x y z)
  have "x * x + y * y + z * z = 0 \<longleftrightarrow> x = 0 \<and> y = 0 \<and> z = 0"
  proof
    assume h: "x * x + y * y + z * z = 0"
    have "0 \<le> x * x" "0 \<le> y * y" "0 \<le> z * z" by simp_all
    with h have "x * x = 0" "y * y = 0" "z * z = 0" by linarith+
    then show "x = 0 \<and> y = 0 \<and> z = 0" by simp
  qed simp
  with Vec3 show ?thesis by (simp add: mag_Vec3 Zero3_def)
qed

lemma dot_Zero3_left: "dot Zero3 v = 0"
  by (cases v) (simp add: Zero3_def)

lemma dot_nonzero_mag: "dot q v \<noteq> 0 \<Longrightarrow> mag q \<noteq> 0"
  using dot_Zero3_left mag_eq_0_iff by metis

lemma endsOfStrip_twoStrips:
  "endsOfStrip (twoStrips a b c d) h = Inr (if h = 0 then (a, b) else (c, d))"
  by (cases a; cases b; cases c; cases d) (simp add: endsOfStrip_def twoStrips_def stripSurface_def)

lemma endsOfCluster_twoStrips:
  "endsOfCluster (twoStrips a b c d) (Some h, None) = Inr (if h = 0 then (a, b) else (c, d))"
  by (simp add: endsOfCluster_def endsOfStrip_twoStrips)

lemma candidate01_simps:
  "spacePoint candidate01 = Zero3"
  "endsOfCluster (twoStrips a b c d) (hitModuleFront candidate01) = Inr (a, b)"
  "endsOfCluster (twoStrips a b c d) (hitModuleBack candidate01) = Inr (c, d)"
  by (simp_all add: candidate01_def newSpacePoint_def endsOfCluster_twoStrips)


section \<open>The solver\<close>

lemma calculateSpacePoint_set:
  "spacePoint hits \<noteq> Zero3 \<Longrightarrow> calculateSpacePoint det dhCfg hits = Inr hits"
  by (simp add: calculateSpacePoint_def)

lemma calculateSpacePoint_perp:
  assumes "spacePoint hits = Zero3"
    and "endsOfCluster det (hitModuleFront hits) = Inr (a, b)"
    and "endsOfCluster det (hitModuleBack hits) = Inr (c, d)"
    and "usePerpProj dhCfg"
    and "calcPerpProj a c (vsub a b) (vsub c d) \<le> 0"
  shows "calculateSpacePoint det dhCfg hits =
           Inr (hits\<lparr>spacePoint := vadd a (smul 1 (vsub a b))\<rparr>)"
  using assms by (simp add: calculateSpacePoint_def reset_def Let_def)

lemma calculateSpacePoint_vertex:
  assumes "spacePoint hits = Zero3"
    and "endsOfCluster det (hitModuleFront hits) = Inr (a, b)"
    and "endsOfCluster det (hitModuleBack hits) = Inr (c, d)"
    and "\<not> usePerpProj dhCfg \<or> calcPerpProj a c (vsub a b) (vsub c d) > 0"
    and "q = vsub a b" and "r = vsub c d"
    and "s = vsub (vadd a b) (smul 2 (vertex dhCfg))"
    and "t = vsub (vadd c d) (smul 2 (vertex dhCfg))"
    and "qs = cross q s" and "rt = cross r t"
    and "dot q rt \<noteq> 0" and "dot r qs \<noteq> 0"
    and "m = - dot s rt / dot q rt" and "n = - dot t qs / dot r qs"
    and "limit = (if stripLengthTolerance dhCfg \<noteq> 0 then 1 + stripLengthTolerance dhCfg else 1)"
  shows "calculateSpacePoint det dhCfg hits =
     (if \<bar>m\<bar> \<le> limit \<and> \<bar>n\<bar> \<le> limit
      then Inr (hits\<lparr>spacePoint := smul (1 / 2) (vadd (vadd a b) (smul m q))\<rparr>)
      else bindF (recoverSpacePoint (solveState dhCfg a b c d m (if \<bar>m\<bar> \<le> limit then n else 0)) dhCfg)
             (\<lambda>(recovered, p6). if recovered then Inr (storePoint hits (a, b) p6) else Inr hits))"
  using assms
  by (auto simp add: calculateSpacePoint_def reset_def Let_def solveState_def storePoint_def)

lemma recoverEasyExit_off:
  "stripLengthGapTolerance cfg \<le> 0 \<Longrightarrow> recoverEasyExit p cfg = Inr (False, p)"
  by (simp add: recoverEasyExit_def)

lemma recoverEasyExit_m:
  assumes "stripLengthGapTolerance cfg > 0" and "mag (spa_q p) \<noteq> 0"
    and "\<bar>spa_m p\<bar> > spa_limit p + stripLengthGapTolerance cfg / mag (spa_q p)"
  shows "recoverEasyExit p cfg =
           Inr (False, p\<lparr>spa_qmag := mag (spa_q p),
                          spa_limitExtended := spa_limit p + stripLengthGapTolerance cfg / mag (spa_q p)\<rparr>)"
  using assms by (simp add: recoverEasyExit_def Let_def)

lemma recoverEasyExit_n:
  assumes "stripLengthGapTolerance cfg > 0" and "mag (spa_q p) \<noteq> 0"
    and "\<not> \<bar>spa_m p\<bar> > spa_limit p + stripLengthGapTolerance cfg / mag (spa_q p)"
    and "spa_n p = 0 \<longrightarrow> dot (spa_r p) (spa_qs p) \<noteq> 0"
    and "n = (if spa_n p = 0 then - dot (spa_t p) (spa_qs p) / dot (spa_r p) (spa_qs p) else spa_n p)"
  shows "recoverEasyExit p cfg =
           Inr (\<not> \<bar>n\<bar> > spa_limit p + stripLengthGapTolerance cfg / mag (spa_q p),
                p\<lparr>spa_qmag := mag (spa_q p),
                  spa_limitExtended := spa_limit p + stripLengthGapTolerance cfg / mag (spa_q p),
                  spa_n := n\<rparr>)"
proof (cases "spa_n p = 0")
  case True
  with assms show ?thesis by (simp add: recoverEasyExit_def Let_def)
next
  case False
  with assms show ?thesis by (simp add: recoverEasyExit_def Let_def)
qed



lemma recoverOvershoot_other:
  assumes "spa_qmag p \<noteq> 0"
    and "\<not> (spa_m p > 1 \<and> spa_n p > 1)" and "\<not> (spa_m p < - 1 \<and> spa_n p < - 1)"
  shows "recoverOvershoot p = Inr (False, p)"
  using assms(1) unfolding recoverOvershoot_def
  by (simp only: if_not_P [OF assms(2)] if_not_P [OF assms(3)]) simp



lemma recoverSpacePoint_other:
  assumes q0: "mag (spa_q p) \<noteq> 0"
    and n0: "spa_n p = 0 \<longrightarrow> dot (spa_r p) (spa_qs p) \<noteq> 0"
    and n: "n = (if spa_n p = 0 then - dot (spa_t p) (spa_qs p) / dot (spa_r p) (spa_qs p)
                 else spa_n p)"
    and other: "\<not> (spa_m p > 1 \<and> n > 1)" "\<not> (spa_m p < - 1 \<and> n < - 1)"
  shows "\<exists>p'. recoverSpacePoint p cfg = Inr (False, p')"
proof -
  define limE where "limE = spa_limit p + stripLengthGapTolerance cfg / mag (spa_q p)"
  define p3 where "p3 = p\<lparr>spa_qmag := mag (spa_q p), spa_limitExtended := limE, spa_n := n\<rparr>"
  consider (off) "stripLengthGapTolerance cfg \<le> 0"
    | (mfar) "stripLengthGapTolerance cfg > 0" "\<bar>spa_m p\<bar> > limE"
    | (nfar) "stripLengthGapTolerance cfg > 0" "\<not> \<bar>spa_m p\<bar> > limE" "\<bar>n\<bar> > limE"
    | (near) "stripLengthGapTolerance cfg > 0" "\<not> \<bar>spa_m p\<bar> > limE" "\<not> \<bar>n\<bar> > limE"
    by linarith
  then show ?thesis
  proof cases
    case off
    then show ?thesis
      by (simp add: recoverSpacePoint_def recoverEasyExit_off)
  next
    case mfar
    then show ?thesis
      using recoverEasyExit_m [OF mfar(1) q0]
      by (simp add: recoverSpacePoint_def limE_def)
  next
    case nfar
    then show ?thesis
      using recoverEasyExit_n [OF nfar(1) q0 _ n0 n]
      by (simp add: recoverSpacePoint_def limE_def)
  next
    case near
    have easy: "recoverEasyExit p cfg = Inr (True, p3)"
      using recoverEasyExit_n [OF near(1) q0 _ n0 n] near(2,3)
      by (simp add: limE_def p3_def)
    have over: "recoverOvershoot p3 = Inr (False, p3)"
      by (rule recoverOvershoot_other) (use q0 other in \<open>simp_all add: p3_def\<close>)
    show ?thesis
      using easy over by (simp add: recoverSpacePoint_def)
  qed
qed

lemma solveState_simps:
  "spa_q (solveState dhCfg a b c d m n) = vsub a b"
  "spa_r (solveState dhCfg a b c d m n) = vsub c d"
  "spa_t (solveState dhCfg a b c d m n) = vsub (vadd c d) (smul 2 (vertex dhCfg))"
  "spa_qs (solveState dhCfg a b c d m n) =
     cross (vsub a b) (vsub (vadd a b) (smul 2 (vertex dhCfg)))"
  "spa_m (solveState dhCfg a b c d m n) = m"
  "spa_n (solveState dhCfg a b c d m n) = n"
  "spa_limit (solveState dhCfg a b c d m n) =
     (if stripLengthTolerance dhCfg \<noteq> 0 then 1 + stripLengthTolerance dhCfg else 1)"
  by (simp_all add: solveState_def)

lemma recoverSpacePoint_usePerpProj:
  "recoverSpacePoint p (cfg\<lparr>usePerpProj := x\<rparr>) = recoverSpacePoint p cfg"
  by (simp add: recoverSpacePoint_def recoverEasyExit_def)

lemma calcPerpProj_degenerate:
  "\<bar>dot q q - dot q r * dot q r\<bar> \<le> 1 / 1000000 \<Longrightarrow> calcPerpProj a c q r = 1"
  by (simp add: calcPerpProj_def Let_def)


lemma calcPerpProj_accepted_axis:
  assumes "calcPerpProj a c q r \<le> 0"
  shows "q \<noteq> Zero3"
proof
  assume "q = Zero3"
  then have "calcPerpProj a c q r = 1"
    by (cases r) (simp add: calcPerpProj_def Zero3_def Let_def)
  with assms show False by simp
qed

lemma vadd_smul_differs:
  assumes "q \<noteq> Zero3" and "k \<noteq> 1"
  shows "vadd a q \<noteq> vadd a (smul k q)"
proof (cases a; cases q)
  fix a1 a2 a3 q1 q2 q3
  assume a: "a = Vec3 a1 a2 a3" and q: "q = Vec3 q1 q2 q3"
  show ?thesis
  proof
    assume "vadd a q = vadd a (smul k q)"
    then have "q1 = k * q1" "q2 = k * q2" "q3 = k * q3"
      by (simp_all add: a q)
    then have "(1 - k) * q1 = 0" "(1 - k) * q2 = 0" "(1 - k) * q3 = 0"
      by (simp_all add: algebra_simps)
    then have "q1 = 0" "q2 = 0" "q3 = 0"
      using assms(2) by simp_all
    then show False using assms(1) by (simp add: q Zero3_def)
  qed
qed

lemma smul_one: "smul 1 v = v"
  by (cases v) simp

lemmas example_simps =
  calculateSpacePoints_def calculateSpacePoint_def recoverSpacePoint_def recoverEasyExit_def
  recoverOvershoot_def calcPerpProj_def storePoint_def reset_def Zero3_def candidate01_simps
  config_def Let_def mag_Vec3 solveM_def solveN_def

section \<open>The matcher and the occupancy grid\<close>

lemma DBL_MAX_pos: "0 < DBL_MAX"
  by (simp add: DBL_MAX_def)

lemma differenceOfHits_far:
  "mag (vsub pos1 pos2) > diffDist cfg \<Longrightarrow> differenceOfHits phi theta pos1 pos2 cfg = - 1"
  by (simp add: differenceOfHits_def)

lemma differenceOfHits_accepted:
  "differenceOfHits phi theta pos1 pos2 cfg \<ge> 0 \<Longrightarrow> mag (vsub pos1 pos2) \<le> diffDist cfg"
  using differenceOfHits_far [of cfg pos1 pos2 phi theta] by (cases "mag (vsub pos1 pos2) > diffDist cfg") simp_all

lemma closestBack_selected:
  assumes "closestBack det phi theta dhCfg pf cbs i st = Inr (dm, jm)"
  shows "jm = snd st \<or>
         (i \<le> jm \<and> jm < i + length cbs \<and>
          (\<exists>pb. clusterPoint det (cbs ! (jm - i)) = Inr pb
                \<and> differenceOfHits phi theta pf pb dhCfg \<ge> 0))"
  using assms
proof (induction cbs arbitrary: i st)
  case Nil
  then show ?case by simp
next
  case (Cons cb cbs)
  from Cons.prems obtain pb where pb: "clusterPoint det cb = Inr pb"
    by (cases "clusterPoint det cb") simp_all
  define cd where "cd = differenceOfHits phi theta pf pb dhCfg"
  define st' where "st' = (if cd < fst st \<and> cd \<ge> 0 then (cd, i) else st)"
  from Cons.prems pb have rec: "closestBack det phi theta dhCfg pf cbs (i + 1) st' = Inr (dm, jm)"
    unfolding st'_def cd_def by (simp add: Let_def split del: if_split)
  from Cons.IH [OF rec] consider (old) "jm = snd st'"
    | (later) "i + 1 \<le> jm" "jm < i + 1 + length cbs"
        "\<exists>pb. clusterPoint det (cbs ! (jm - (i + 1))) = Inr pb
              \<and> differenceOfHits phi theta pf pb dhCfg \<ge> 0"
    by blast
  then show ?case
  proof cases
    case old
    show ?thesis
    proof (cases "cd < fst st \<and> cd \<ge> 0")
      case True
      then have "jm = i" using old by (simp add: st'_def)
      then show ?thesis using pb True by (auto simp add: cd_def)
    next
      case False
      then have "jm = snd st" using old by (simp only: st'_def if_False)
      then show ?thesis by simp
    qed
  next
    case later
    then have "(cb # cbs) ! (jm - i) = cbs ! (jm - (i + 1))"
      by (simp add: nth_Cons')
    then show ?thesis using later by auto
  qed
qed

lemma matchClusters_within:
  assumes "matchClusters det phi theta dhCfg cbs cfs sps = Inr sps'"
  shows "\<exists>new. sps' = sps @ new \<and>
           (\<forall>sp \<in> set new. \<exists>pf pb. clusterPoint det (hitModuleFront sp) = Inr pf
               \<and> clusterPoint det (hitModuleBack sp) = Inr pb
               \<and> mag (vsub pf pb) \<le> diffDist dhCfg)"
  using assms
proof (induction cfs arbitrary: sps)
  case Nil
  then show ?case by simp
next
  case (Cons cf cfs)
  from Cons.prems obtain pf where pf: "clusterPoint det cf = Inr pf"
    by (cases "clusterPoint det cf") simp_all
  from Cons.prems pf obtain best where
    best: "closestBack det phi theta dhCfg pf cbs 0 (DBL_MAX, length cbs) = Inr best"
    by (cases "closestBack det phi theta dhCfg pf cbs 0 (DBL_MAX, length cbs)") simp_all
  define sps1 where "sps1 = (if snd best < length cbs
      then sps @ [newSpacePoint cf (cbs ! snd best)] else sps)"
  from Cons.prems pf best have rec: "matchClusters det phi theta dhCfg cbs cfs sps1 = Inr sps'"
    by (simp add: sps1_def)
  from Cons.IH [OF rec] obtain new where new: "sps' = sps1 @ new"
      "\<forall>sp \<in> set new. \<exists>pf pb. clusterPoint det (hitModuleFront sp) = Inr pf
               \<and> clusterPoint det (hitModuleBack sp) = Inr pb
               \<and> mag (vsub pf pb) \<le> diffDist dhCfg"
    by blast
  show ?case
  proof (cases "snd best < length cbs")
    case False
    then show ?thesis using new by (auto simp add: sps1_def)
  next
    case True
    from closestBack_selected [of det phi theta dhCfg pf cbs 0 "(DBL_MAX, length cbs)" "fst best" "snd best"]
      best True
    obtain pb where pb: "clusterPoint det (cbs ! snd best) = Inr pb"
        "differenceOfHits phi theta pf pb dhCfg \<ge> 0"
      by auto
    have "mag (vsub pf pb) \<le> diffDist dhCfg"
      using differenceOfHits_accepted [OF pb(2)] .
    then have "\<exists>pf pb. clusterPoint det (hitModuleFront (newSpacePoint cf (cbs ! snd best))) = Inr pf
               \<and> clusterPoint det (hitModuleBack (newSpacePoint cf (cbs ! snd best))) = Inr pb
               \<and> mag (vsub pf pb) \<le> diffDist dhCfg"
      using pf pb by (auto simp add: newSpacePoint_def)
    then show ?thesis
      using new True by (auto simp add: sps1_def intro!: exI [of _ "newSpacePoint cf (cbs ! snd best) # new"])
  qed
qed

lemma clusterPoint_twoStrips:
  "clusterPoint (twoStrips a b c d) (Some h, None) = Inr (if h = 0 then mean3 a b else mean3 c d)"
  by (simp add: clusterPoint_def twoStrips_def)

lemma fillHits_multi:
  assumes "\<exists>h \<in> set hs. referenceSurface det h \<noteq> surface"
    and "\<forall>h \<in> set hs. referenceSurface det h = surface \<longrightarrow>
           fst (binOfHit det h) < length bins \<and> snd (binOfHit det h) < nY"
    and "\<forall>row \<in> set bins. length row = nY"
  shows "fillHits det surface bins hs = Inr []"
  using assms
proof (induction hs arbitrary: bins)
  case Nil
  then show ?case by simp
next
  case (Cons h hs)
  show ?case
  proof (cases "referenceSurface det h = surface")
    case False
    then show ?thesis by simp
  next
    case True
    define x where "x = fst (binOfHit det h)"
    define y where "y = snd (binOfHit det h)"
    define bins1 where "bins1 = bins[x := (bins ! x)[y := Some h]]"
    have x: "x < length bins" and y: "y < nY"
      using Cons.prems(2) True by (simp_all add: x_def y_def)
    then have y': "y < length (bins ! x)"
      using Cons.prems(3) by simp
    have rows: "\<forall>row \<in> set bins1. length row = nY"
    proof
      fix row assume "row \<in> set bins1"
      then have "row \<in> insert ((bins ! x)[y := Some h]) (set bins)"
        using set_update_subset_insert [of bins x] by (auto simp add: bins1_def)
      then show "length row = nY"
        using Cons.prems(3) x by auto
    qed
    have more: "\<exists>h \<in> set hs. referenceSurface det h \<noteq> surface"
      using Cons.prems(1) True by auto
    have inr: "\<forall>h \<in> set hs. referenceSurface det h = surface \<longrightarrow>
           fst (binOfHit det h) < length bins1 \<and> snd (binOfHit det h) < nY"
      using Cons.prems(2) by (simp add: bins1_def)
    have "fillHits det surface bins (h # hs) = fillHits det surface bins1 hs"
      using True x y' by (simp add: Let_def x_def y_def bins1_def)
    then show ?thesis
      using Cons.IH [OF more inr rows] by simp
  qed
qed

lemma sortHits_multi:
  assumes "\<exists>h \<in> set hits. referenceSurface det h \<noteq> referenceSurface det (hd hits)"
    and "\<forall>h \<in> set hits. referenceSurface det h = referenceSurface det (hd hits) \<longrightarrow>
           fst (binOfHit det h) < nBins (fst (binningData det (hd hits)))
         \<and> snd (binOfHit det h) < nBins (snd (binningData det (hd hits)))"
  shows "sortHits det hits = Inr []"
proof (cases hits)
  case Nil
  then show ?thesis using assms by simp
next
  case (Cons h0 hs)
  show ?thesis
    unfolding sortHits_def Cons list.case Let_def
    by (rule fillHits_multi [where nY = "nBins (snd (binningData det h0))"])
       (use assms Cons in auto)
qed

lemma clusterSpacePoints_multi:
  assumes "\<exists>h \<in> set hits. referenceSurface det h \<noteq> referenceSurface det (hd hits)"
    and "\<forall>h \<in> set hits. referenceSurface det h = referenceSurface det (hd hits) \<longrightarrow>
           fst (binOfHit det h) < nBins (fst (binningData det (hd hits)))
         \<and> snd (binOfHit det h) < nBins (snd (binningData det (hd hits)))"
  shows "clusterSpacePoints det hits True = Inr []"
proof -
  have "length hits \<noteq> 1"
  proof
    assume "length hits = 1"
    then obtain h where "hits = [h]" by (cases hits) auto
    then show False using assms(1) by simp
  qed
  then show ?thesis
    using sortHits_multi [OF assms] by (simp add: clusterSpacePoints_def)
qed

lemma binOfHit_twoStrips: "binOfHit (twoStrips a b c d) h = (0, 0)"
  by (simp add: binOfHit_def binningData_def twoStrips_def stripSurface_def)

section \<open>The scan and the occupancy grid\<close>

lemma clusterStep_first:
  "fst (fst (clusterStep atEnd cell st)) = cell"
  by (cases st) (auto simp add: clusterStep_def Let_def)

lemma clusterStep_clusters:
  "snd (clusterStep atEnd cell st) = snd st @ scanOut (fst (fst st)) atEnd cell"
  by (cases st) (auto simp add: clusterStep_def scanOut_def Let_def)

lemma foldl_clusterStep:
  "snd (foldl (\<lambda>st c. clusterStep (fst c) (snd c) st) st cs) =
     snd st @ scanCells (fst (fst st)) cs"
  by (induction cs arbitrary: st) (simp_all add: clusterStep_first clusterStep_clusters)

lemma foldl_concat_map:
  "foldl f a (concat (map g js)) = foldl (\<lambda>a j. foldl f a (g j)) a js"
  by (induction js arbitrary: a) simp_all

lemma map_snd_gridCells:
  "map snd (gridCells nOuter nInner cellAt) =
     concat (map (\<lambda>j. map (\<lambda>i. (i = nInner - 1, cellAt j i)) [0..<nInner]) [0..<nOuter])"
  by (simp add: gridCells_def map_concat comp_def)

lemma nested_scan:
  "snd (foldl (\<lambda>st j. foldl (\<lambda>st i. clusterStep (i = nInner - 1) (cellAt j i) st) st [0..<nInner])
          st [0..<nOuter]) =
     snd st @ scanCells (fst (fst st)) (map snd (gridCells nOuter nInner cellAt))"
proof -
  have "foldl (\<lambda>st j. foldl (\<lambda>st i. clusterStep (i = nInner - 1) (cellAt j i) st) st [0..<nInner])
          st [0..<nOuter] =
        foldl (\<lambda>st c. clusterStep (fst c) (snd c) st) st (map snd (gridCells nOuter nInner cellAt))"
    by (simp add: map_snd_gridCells foldl_concat_map foldl_map)
  then show ?thesis by (simp add: foldl_clusterStep)
qed

lemma scanBins_cells:
  "scanBins bins =
     (if length bins > length (bins ! 0)
      then scanCells None (map snd (gridCells (length (bins ! 0)) (length bins)
                                       (\<lambda>iY iX. bins ! iX ! iY)))
      else scanCells None (map snd (gridCells (length bins) (length (bins ! 0))
                                       (\<lambda>iX iY. bins ! iX ! iY))))"
  unfolding scanBins_def if_distrib [of snd] nested_scan by simp


lemma scanOut_cases:
  assumes "cl \<in> set (scanOut first atEnd cell)"
  shows "(cl = (cell, None) \<and> cell \<noteq> None \<and> first = None \<and> atEnd)
       \<or> (cl = (first, cell) \<and> first \<noteq> None)"
  using assms by (auto simp add: scanOut_def split: if_splits)

lemma scanCells_members:
  assumes "cl \<in> set (scanCells first cs)"
  shows "fst cl \<noteq> None \<and> (fst cl = first \<or> fst cl \<in> snd ` set cs)
       \<and> (snd cl = None \<or> snd cl \<in> snd ` set cs)"
  using assms
proof (induction cs arbitrary: first)
  case Nil
  then show ?case by simp
next
  case (Cons c cs)
  from Cons.prems consider (now) "cl \<in> set (scanOut first (fst c) (snd c))"
    | (later) "cl \<in> set (scanCells (snd c) cs)"
    by auto
  then show ?case
  proof cases
    case now
    from scanOut_cases [OF now] show ?thesis by auto
  next
    case later
    from Cons.IH [OF later] show ?thesis by auto
  qed
qed

lemma scanCells_pairs_from:
  assumes "successively nextInLine (p # es)"
    and "(Some h1, Some h2) \<in> set (scanCells (snd (snd p)) (map snd es))"
  shows "\<exists>e e'. e \<in> set (p # es) \<and> e' \<in> set es \<and> snd (snd e) = Some h1
            \<and> snd (snd e') = Some h2 \<and> nextInLine e e'"
  using assms
proof (induction es arbitrary: p)
  case Nil
  then show ?case by simp
next
  case (Cons e1 es)
  from Cons.prems(2) consider
      (now) "(Some h1, Some h2) \<in> set (scanOut (snd (snd p)) (fst (snd e1)) (snd (snd e1)))"
    | (later) "(Some h1, Some h2) \<in> set (scanCells (snd (snd e1)) (map snd es))"
    by auto
  then show ?case
  proof cases
    case now
    from scanOut_cases [OF now] have "snd (snd p) = Some h1" "snd (snd e1) = Some h2"
      by auto
    moreover have "nextInLine p e1"
      using Cons.prems(1) by simp
    ultimately show ?thesis
      by (intro exI [of _ p] exI [of _ e1]) simp
  next
    case later
    have "successively nextInLine (e1 # es)"
      using Cons.prems(1) by simp
    from Cons.IH [OF this later] obtain e e' where
      "e \<in> set (e1 # es)" "e' \<in> set es" "snd (snd e) = Some h1" "snd (snd e') = Some h2"
      "nextInLine e e'"
      by blast
    then show ?thesis
      by (intro exI [of _ e] exI [of _ e']) simp
  qed
qed

lemma scanCells_pairs:
  assumes "successively nextInLine es"
    and "(Some h1, Some h2) \<in> set (scanCells None (map snd es))"
  shows "\<exists>e e'. e \<in> set es \<and> e' \<in> set es \<and> snd (snd e) = Some h1
            \<and> snd (snd e') = Some h2 \<and> nextInLine e e'"
proof (cases es)
  case Nil
  then show ?thesis using assms by simp
next
  case (Cons e1 es')
  from assms(2) Cons consider
      (now) "(Some h1, Some h2) \<in> set (scanOut None (fst (snd e1)) (snd (snd e1)))"
    | (later) "(Some h1, Some h2) \<in> set (scanCells (snd (snd e1)) (map snd es'))"
    by auto
  then show ?thesis
  proof cases
    case now
    from scanOut_cases [OF now] show ?thesis by auto
  next
    case later
    have "successively nextInLine (e1 # es')"
      using assms(1) Cons by simp
    from scanCells_pairs_from [OF this later] obtain e e' where
      "e \<in> set (e1 # es')" "e' \<in> set es'" "snd (snd e) = Some h1" "snd (snd e') = Some h2"
      "nextInLine e e'"
      by blast
    then show ?thesis
      unfolding Cons by (intro exI [of _ e] exI [of _ e']) simp
  qed
qed

lemma scanCells_covers:
  assumes "cs = [] \<or> fst (last cs)"
    and "(first = Some h \<and> cs \<noteq> []) \<or> Some h \<in> snd ` set cs"
  shows "\<exists>cl \<in> set (scanCells first cs). fst cl = Some h \<or> snd cl = Some h"
  using assms
proof (induction cs arbitrary: first)
  case Nil
  then show ?case by simp
next
  case (Cons c cs)
  show ?case
  proof (cases "first = Some h")
    case True
    then have "(first, snd c) \<in> set (scanOut first (fst c) (snd c))"
      by (simp add: scanOut_def)
    then show ?thesis using True by force
  next
    case notFirst: False
    show ?thesis
    proof (cases "snd c = Some h")
      case True
      show ?thesis
      proof (cases "cs = []")
        case True
        then have "fst c" using Cons.prems(1) by simp
        then have "\<exists>cl \<in> set (scanOut first (fst c) (snd c)). fst cl = Some h \<or> snd cl = Some h"
          using \<open>snd c = Some h\<close> by (cases first) (simp_all add: scanOut_def)
        then show ?thesis by auto
      next
        case False
        then have "cs = [] \<or> fst (last cs)" using Cons.prems(1) by simp
        moreover have "(snd c = Some h \<and> cs \<noteq> []) \<or> Some h \<in> snd ` set cs"
          using True False by simp
        ultimately have "\<exists>cl \<in> set (scanCells (snd c) cs). fst cl = Some h \<or> snd cl = Some h"
          by (rule Cons.IH)
        then show ?thesis by auto
      qed
    next
      case False
      then have inrest: "Some h \<in> snd ` set cs"
        using Cons.prems(2) notFirst by auto
      then have "cs \<noteq> []" by auto
      then have "cs = [] \<or> fst (last cs)" using Cons.prems(1) by simp
      moreover have "(snd c = Some h \<and> cs \<noteq> []) \<or> Some h \<in> snd ` set cs"
        using inrest by simp
      ultimately have "\<exists>cl \<in> set (scanCells (snd c) cs). fst cl = Some h \<or> snd cl = Some h"
        by (rule Cons.IH)
      then show ?thesis by auto
    qed
  qed
qed

lemma set_gridCells:
  "e \<in> set (gridCells nOuter nInner cellAt) \<longleftrightarrow>
     (\<exists>j < nOuter. \<exists>i < nInner. e = ((j, i), i = nInner - 1, cellAt j i))"
  by (force simp add: gridCells_def)

lemma gridCells_Suc:
  "gridCells (Suc nOuter) nInner cellAt =
     gridCells nOuter nInner cellAt
       @ map (\<lambda>i. ((nOuter, i), i = nInner - 1, cellAt nOuter i)) [0..<nInner]"
  by (simp add: gridCells_def)

lemma last_gridCells:
  assumes "gridCells nOuter nInner cellAt \<noteq> []"
  shows "fst (snd (last (gridCells nOuter nInner cellAt)))"
  using assms
proof (induction nOuter)
  case 0
  then show ?case by (simp add: gridCells_def)
next
  case (Suc nOuter)
  show ?case
  proof (cases nInner)
    case 0
    then show ?thesis using Suc by (simp add: gridCells_Suc)
  next
    case (Suc k)
    then show ?thesis by (simp add: gridCells_Suc)
  qed
qed

lemma successively_upt: "successively (\<lambda>i i'. i' = Suc i) [0..<n]"
proof (induction n)
  case 0
  then show ?case by simp
next
  case (Suc n)
  then show ?case
    by (cases n) (simp_all add: successively_append_iff)
qed

lemma successively_line:
  "successively nextInLine (map (\<lambda>i. ((j, i), i = nInner - 1, cellAt j i)) [0..<nInner])"
  unfolding successively_map
  by (rule successively_mono [OF successively_upt]) (simp add: nextInLine_def)

lemma successively_gridCells:
  "successively nextInLine (gridCells nOuter nInner cellAt)"
proof (induction nOuter)
  case 0
  then show ?case by (simp add: gridCells_def)
next
  case (Suc nOuter)
  have "gridCells nOuter nInner cellAt = [] \<or>
        nextInLine (last (gridCells nOuter nInner cellAt))
          (hd (map (\<lambda>i. ((nOuter, i), i = nInner - 1, cellAt nOuter i)) [0..<nInner]))"
    using last_gridCells [of nOuter nInner cellAt] by (auto simp add: nextInLine_def)
  then show ?case
    using Suc successively_line [of nOuter nInner cellAt]
    by (auto simp add: gridCells_Suc successively_append_iff)
qed


lemma fillHits_single:
  assumes "\<forall>h \<in> set hs. referenceSurface det h = surface"
    and "fillHits det surface bins hs = Inr bins'"
  shows "length bins' = length bins
       \<and> (\<forall>x < length bins. length (bins' ! x) = length (bins ! x))
       \<and> (\<forall>h \<in> set hs. fst (binOfHit det h) < length bins
              \<and> snd (binOfHit det h) < length (bins ! fst (binOfHit det h)))
       \<and> (\<forall>x y. x < length bins \<longrightarrow> y < length (bins ! x) \<longrightarrow>
             bins' ! x ! y =
               (if filter (\<lambda>h. binOfHit det h = (x, y)) hs = [] then bins ! x ! y
                else Some (last (filter (\<lambda>h. binOfHit det h = (x, y)) hs))))"
  using assms
proof (induction hs arbitrary: bins)
  case Nil
  then show ?case by simp
next
  case (Cons h hs)
  define x0 where "x0 = fst (binOfHit det h)"
  define y0 where "y0 = snd (binOfHit det h)"
  define bins1 where "bins1 = bins[x0 := (bins ! x0)[y0 := Some h]]"
  have same: "referenceSurface det h = surface"
    using Cons.prems(1) by simp
  have inrange: "x0 < length bins \<and> y0 < length (bins ! x0)"
  proof (rule ccontr)
    assume "\<not> (x0 < length bins \<and> y0 < length (bins ! x0))"
    then have "fillHits det surface bins (h # hs) = Inl OutOfRange"
      using same by (auto simp add: Let_def x0_def y0_def)
    then show False using Cons.prems(2) by simp
  qed
  have rec: "fillHits det surface bins1 hs = Inr bins'"
    using Cons.prems(2) same inrange by (simp add: Let_def x0_def y0_def bins1_def)
  have rest: "\<forall>h \<in> set hs. referenceSurface det h = surface"
    using Cons.prems(1) by simp
  note IH = Cons.IH [OF rest rec]
  have len1: "length bins1 = length bins"
    by (simp add: bins1_def)
  have row1: "length (bins1 ! x) = length (bins ! x)" if "x < length bins" for x
    using that by (cases "x = x0") (simp_all add: bins1_def)
  have cell1: "bins1 ! x ! y = (if (x, y) = (x0, y0) then Some h else bins ! x ! y)"
    if "x < length bins" "y < length (bins ! x)" for x y
    using that by (cases "x = x0"; cases "y = y0") (simp_all add: bins1_def)
  have bin: "binOfHit det h = (x0, y0)"
    by (simp add: x0_def y0_def)
  have "length bins' = length bins"
    using IH len1 by simp
  moreover have "\<forall>x < length bins. length (bins' ! x) = length (bins ! x)"
    using IH len1 row1 by simp
  moreover have "\<forall>h' \<in> set (h # hs). fst (binOfHit det h') < length bins
              \<and> snd (binOfHit det h') < length (bins ! fst (binOfHit det h'))"
    using IH len1 row1 inrange bin by auto
  moreover have "\<forall>x y. x < length bins \<longrightarrow> y < length (bins ! x) \<longrightarrow>
             bins' ! x ! y =
               (if filter (\<lambda>h. binOfHit det h = (x, y)) (h # hs) = [] then bins ! x ! y
                else Some (last (filter (\<lambda>h. binOfHit det h = (x, y)) (h # hs))))"
  proof (intro allI impI)
    fix x y assume xy: "x < length bins" "y < length (bins ! x)"
    then have "bins' ! x ! y =
               (if filter (\<lambda>h. binOfHit det h = (x, y)) hs = [] then bins1 ! x ! y
                else Some (last (filter (\<lambda>h. binOfHit det h = (x, y)) hs)))"
      using IH len1 row1 by simp
    then show "bins' ! x ! y =
               (if filter (\<lambda>h. binOfHit det h = (x, y)) (h # hs) = [] then bins ! x ! y
                else Some (last (filter (\<lambda>h. binOfHit det h = (x, y)) (h # hs))))"
      using cell1 [OF xy] bin by (cases "(x, y) = (x0, y0)") auto
  qed
  ultimately show ?case by blast
qed

lemma sortHits_single:
  assumes "\<forall>h \<in> set hits. referenceSurface det h = referenceSurface det (hd hits)"
    and "sortHits det hits = Inr bins"
    and "nX = nBins (fst (binningData det (hd hits)))"
    and "nY = nBins (snd (binningData det (hd hits)))"
  shows "length bins = nX \<and> (\<forall>x < nX. length (bins ! x) = nY)
       \<and> (\<forall>h \<in> set hits. fst (binOfHit det h) < nX \<and> snd (binOfHit det h) < nY)
       \<and> (\<forall>x y. x < nX \<longrightarrow> y < nY \<longrightarrow>
             bins ! x ! y =
               (if filter (\<lambda>h. binOfHit det h = (x, y)) hits = [] then None
                else Some (last (filter (\<lambda>h. binOfHit det h = (x, y)) hits))))"
proof (cases hits)
  case Nil
  then show ?thesis using assms(2) by (simp add: sortHits_def)
next
  case (Cons h0 hs)
  define bins0 :: "hit option list list" where "bins0 = replicate nX (replicate nY None)"
  have fill: "fillHits det (referenceSurface det h0) bins0 hits = Inr bins"
    using assms(2-4) Cons by (simp add: sortHits_def Let_def bins0_def)
  have same: "\<forall>h \<in> set hits. referenceSurface det h = referenceSurface det h0"
    using assms(1) Cons by simp
  have len0: "length bins0 = nX" and row0: "\<And>x. x < nX \<Longrightarrow> bins0 ! x = replicate nY None"
    by (simp_all add: bins0_def)
  from fillHits_single [OF same fill] show ?thesis
    using len0 row0 by auto
qed

lemma grid_cell_hit:
  assumes "bins ! x ! y =
               (if filter (\<lambda>h. binOfHit det h = (x, y)) hits = [] then None
                else Some (last (filter (\<lambda>h. binOfHit det h = (x, y)) hits)))"
    and "bins ! x ! y = Some h"
  shows "h \<in> set hits \<and> binOfHit det h = (x, y)"
proof -
  let ?fs = "filter (\<lambda>h. binOfHit det h = (x, y)) hits"
  from assms have ne: "?fs \<noteq> []" and h: "h = last ?fs"
    by (auto split: if_splits)
  from ne have "last ?fs \<in> set ?fs" by (rule last_in_set)
  then have "h \<in> set ?fs" by (simp only: h [symmetric])
  then show ?thesis by (simp only: set_filter mem_Collect_eq)
qed

lemma lastInCell_grid:
  assumes "lastInCell det hits h"
    and "bins ! fst (binOfHit det h) ! snd (binOfHit det h) =
           (if filter (\<lambda>h'. binOfHit det h' = binOfHit det h) hits = [] then None
            else Some (last (filter (\<lambda>h'. binOfHit det h' = binOfHit det h) hits)))"
  shows "bins ! fst (binOfHit det h) ! snd (binOfHit det h) = Some h"
proof -
  have "h \<in> set hits"
    using assms(1) by (simp add: lastInCell_def)
  then have "filter (\<lambda>h'. binOfHit det h' = binOfHit det h) hits \<noteq> []"
    by (auto simp add: filter_empty_conv)
  then show ?thesis
    using assms by (simp add: lastInCell_def)
qed

lemma scan_grid_members:
  assumes "cl \<in> set (scanCells None (map snd (gridCells nOuter nInner cellAt)))"
  shows "(\<exists>j < nOuter. \<exists>i < nInner. fst cl = cellAt j i \<and> fst cl \<noteq> None)
       \<and> (snd cl = None \<or> (\<exists>j < nOuter. \<exists>i < nInner. snd cl = cellAt j i))"
proof -
  let ?cs = "map snd (gridCells nOuter nInner cellAt)"
  have cells: "\<exists>j < nOuter. \<exists>i < nInner. c = cellAt j i" if "c \<in> snd ` set ?cs" for c
  proof -
    from that obtain b where "(b, c) \<in> set ?cs"
      by force
    then obtain p where "(p, b, c) \<in> set (gridCells nOuter nInner cellAt)"
      by force
    then obtain j i where ji: "j < nOuter" "i < nInner"
        "(p, b, c) = ((j, i), i = nInner - 1, cellAt j i)"
      unfolding set_gridCells by blast
    from ji(3) have "c = cellAt j i" by simp
    with ji(1,2) show ?thesis by blast
  qed
  note m = scanCells_members [OF assms]
  from m have first: "fst cl \<noteq> None" by (rule conjunct1)
  from m first have "fst cl \<in> snd ` set ?cs" by blast
  from cells [OF this] first
  have one: "\<exists>j < nOuter. \<exists>i < nInner. fst cl = cellAt j i \<and> fst cl \<noteq> None"
    by blast
  have two: "snd cl = None \<or> (\<exists>j < nOuter. \<exists>i < nInner. snd cl = cellAt j i)"
  proof (cases "snd cl = None")
    case True
    then show ?thesis by (rule disjI1)
  next
    case False
    with m have "snd cl \<in> snd ` set ?cs" by blast
    from cells [OF this] show ?thesis by (rule disjI2)
  qed
  from one two show ?thesis by (rule conjI)
qed

lemma scan_grid_covers:
  assumes "j < nOuter" and "i < nInner" and "cellAt j i = Some h"
  shows "\<exists>cl \<in> set (scanCells None (map snd (gridCells nOuter nInner cellAt))).
           fst cl = Some h \<or> snd cl = Some h"
proof (rule scanCells_covers)
  let ?es = "gridCells nOuter nInner cellAt"
  have "((j, i), i = nInner - 1, cellAt j i) \<in> set ?es"
    using assms by (auto simp add: set_gridCells)
  then have "(i = nInner - 1, Some h) \<in> set (map snd ?es)"
    using assms(3) by force
  then show "(None = Some h \<and> map snd ?es \<noteq> []) \<or> Some h \<in> snd ` set (map snd ?es)"
    by force
  show "map snd ?es = [] \<or> fst (last (map snd ?es))"
    using last_gridCells [of nOuter nInner cellAt] by (cases "?es = []") (simp_all add: last_map)
qed

lemma scan_grid_pairs:
  assumes "(Some h1, Some h2) \<in> set (scanCells None (map snd (gridCells nOuter nInner cellAt)))"
  shows "\<exists>j i j' i'. j < nOuter \<and> i < nInner \<and> j' < nOuter \<and> i' < nInner
           \<and> cellAt j i = Some h1 \<and> cellAt j' i' = Some h2
           \<and> (i + 1 < nInner \<longrightarrow> j' = j \<and> i' = i + 1)"
proof -
  from scanCells_pairs [OF successively_gridCells assms] obtain e e' where
    e: "e \<in> set (gridCells nOuter nInner cellAt)" "snd (snd e) = Some h1"
    and e': "e' \<in> set (gridCells nOuter nInner cellAt)" "snd (snd e') = Some h2"
    and line: "nextInLine e e'"
    by blast
  from e(1) obtain j i where ji: "j < nOuter" "i < nInner"
      "e = ((j, i), i = nInner - 1, cellAt j i)"
    by (auto simp add: set_gridCells)
  from e'(1) obtain j' i' where ji': "j' < nOuter" "i' < nInner"
      "e' = ((j', i'), i' = nInner - 1, cellAt j' i')"
    by (auto simp add: set_gridCells)
  have "i + 1 < nInner \<longrightarrow> j' = j \<and> i' = i + 1"
    using line ji(3) ji'(3) by (auto simp add: nextInLine_def)
  then show ?thesis
    using ji ji' e(2) e'(2) by auto
qed

lemma scan_grid_clusters:
  fixes pos :: "hit \<Rightarrow> nat \<times> nat"
  assumes cl: "clusters = scanCells None (map snd (gridCells nOuter nInner cellAt))"
    and cellhit: "\<And>j i h. j < nOuter \<Longrightarrow> i < nInner \<Longrightarrow> cellAt j i = Some h
                    \<Longrightarrow> h \<in> set hits \<and> pos h = (j, i)"
    and gridhit: "\<And>h. lastInCell det hits h
                    \<Longrightarrow> fst (pos h) < nOuter \<and> snd (pos h) < nInner
                        \<and> cellAt (fst (pos h)) (snd (pos h)) = Some h"
  shows "(\<forall>cl \<in> set clusters. (\<exists>h1 \<in> set hits. fst cl = Some h1)
            \<and> (snd cl = None \<or> (\<exists>h2 \<in> set hits. snd cl = Some h2)))
       \<and> (\<forall>h. lastInCell det hits h \<longrightarrow> (\<exists>cl \<in> set clusters. fst cl = Some h \<or> snd cl = Some h))
       \<and> (\<forall>h1 h2. (Some h1, Some h2) \<in> set clusters \<longrightarrow> snd (pos h1) + 1 < nInner
            \<longrightarrow> pos h2 = (fst (pos h1), snd (pos h1) + 1))"
proof (intro conjI ballI allI impI)
  fix c assume "c \<in> set clusters"
  then have c: "c \<in> set (scanCells None (map snd (gridCells nOuter nInner cellAt)))"
    by (simp only: cl)
  note m = scan_grid_members [OF c]
  from m obtain j i where "j < nOuter" "i < nInner" "fst c = cellAt j i" "fst c \<noteq> None"
    by blast
  then obtain h1 where "cellAt j i = Some h1" "fst c = Some h1"
    by (cases "fst c") auto
  with cellhit [of j i h1] \<open>j < nOuter\<close> \<open>i < nInner\<close>
  show "\<exists>h1 \<in> set hits. fst c = Some h1"
    by blast
  show "snd c = None \<or> (\<exists>h2 \<in> set hits. snd c = Some h2)"
  proof (cases "snd c")
    case None
    then show ?thesis by simp
  next
    case (Some h2)
    with m obtain j' i' where "j' < nOuter" "i' < nInner" "cellAt j' i' = Some h2"
      by auto
    with cellhit [of j' i' h2] Some show ?thesis by blast
  qed
next
  fix h assume "lastInCell det hits h"
  from gridhit [OF this] have "\<exists>c \<in> set (scanCells None (map snd (gridCells nOuter nInner cellAt))).
           fst c = Some h \<or> snd c = Some h"
    by (intro scan_grid_covers [of "fst (pos h)" nOuter "snd (pos h)" nInner]) simp_all
  then show "\<exists>c \<in> set clusters. fst c = Some h \<or> snd c = Some h"
    by (simp only: cl)
next
  fix h1 h2 assume "(Some h1, Some h2) \<in> set clusters" and notEnd: "snd (pos h1) + 1 < nInner"
  then have "(Some h1, Some h2) \<in> set (scanCells None (map snd (gridCells nOuter nInner cellAt)))"
    by (simp only: cl)
  from scan_grid_pairs [OF this] obtain j i j' i' where
    ji: "j < nOuter" "i < nInner" "cellAt j i = Some h1"
    and ji': "j' < nOuter" "i' < nInner" "cellAt j' i' = Some h2"
    and line: "i + 1 < nInner \<longrightarrow> j' = j \<and> i' = i + 1"
    by blast
  from cellhit [OF ji] have p1: "pos h1 = (j, i)" by simp
  from cellhit [OF ji'] have p2: "pos h2 = (j', i')" by simp
  from notEnd p1 line show "pos h2 = (fst (pos h1), snd (pos h1) + 1)"
    by (simp add: p2)
qed

lemma floor_middle: "nat \<lfloor>real n + 1 / 2\<rfloor> = n"
proof -
  have "\<lfloor>real n + 1 / 2\<rfloor> = int n"
    by (rule floor_unique) simp_all
  then show ?thesis by simp
qed

lemma binOfHit_gridDetector: "binOfHit (gridDetector nx ny binOf) h = binOf h"
  by (simp add: binOfHit_def binningData_def gridDetector_def floor_middle)

lemma gridDetector_simps:
  "referenceSurface (gridDetector nx ny binOf) h = 0"
  "nBins (fst (binningData (gridDetector nx ny binOf) h)) = nx"
  "nBins (snd (binningData (gridDetector nx ny binOf) h)) = ny"
  by (simp_all add: binningData_def gridDetector_def)

lemma example_clusters:
  "clusterSpacePoints (gridDetector 3 2 exampleBins) [0, 1, 2, 3] True =
     Inr [(Some 1, Some 2), (Some 2, Some 3), (Some 3, None)]"
  by (simp add: clusterSpacePoints_def sortHits_def gridDetector_simps binOfHit_gridDetector
        exampleBins_def Let_def scanBins_def clusterStep_def eval_nat_numeral)


section \<open>The claims about the solver\<close>

text \<open>
  Claim C1 says that in perpendicular-projection mode a candidate whose closest-approach
  parameter \<open>\<lambda> = calcPerpProj a c q r\<close> is at most 0 gets the position \<open>a + \<lambda> q\<close>,
  as the comment of \<open>calcPerpProj\<close> has it. The source assigns to \<open>resultPerpProj\<close> the
  truth value of \<open>calcPerpProj(...) <= 0.\<close> and not \<open>\<lambda>\<close>: for every such candidate that
  is not yet solved, the stored position is \<open>a + q\<close>, which is never the position
  \<open>a + \<lambda> q\<close> of the claim.
\<close>

theorem perp_projection_stores_a_plus_q:
  assumes "i < length storage" and "hits = storage ! i"
    and unset: "spacePoint hits = Zero3"
    and ends1: "endsOfCluster det (hitModuleFront hits) = Inr (a, b)"
    and ends2: "endsOfCluster det (hitModuleBack hits) = Inr (c, d)"
    and mode: "usePerpProj dhCfg"
    and q: "q = vsub a b" and r: "r = vsub c d"
    and accepted: "calcPerpProj a c q r \<le> 0"
  shows "calculateSpacePoints det dhCfg storage ! i = Inr (hits\<lparr>spacePoint := vadd a q\<rparr>)
       \<and> vadd a q \<noteq> vadd a (smul (calcPerpProj a c q r) q)"
proof -
  from accepted have acc: "calcPerpProj a c (vsub a b) (vsub c d) \<le> 0"
    by (simp add: q r)
  have "calculateSpacePoint det dhCfg hits = Inr (hits\<lparr>spacePoint := vadd a q\<rparr>)"
    using calculateSpacePoint_perp [OF unset ends1 ends2 mode acc] by (simp add: smul_one q)
  moreover have "vadd a q \<noteq> vadd a (smul (calcPerpProj a c q r) q)"
    using vadd_smul_differs [OF calcPerpProj_accepted_axis [OF accepted]] accepted by simp
  ultimately show ?thesis
    using assms(1,2) by (simp add: calculateSpacePoints_def)
qed

text \<open>
  Claim C1 at the front strip from \<open>(1, 0, 1)\<close> to \<open>(-1, 0, 1)\<close> and the back strip from
  \<open>(5/4, 1, 2)\<close> to \<open>(5/4, -1, 2)\<close>: \<open>\<lambda> = -1/2\<close>, the position of the claim is
  \<open>(0, 0, 1)\<close>, and the stored one is \<open>(3, 0, 1)\<close>.
\<close>

theorem perp_projection_stores_a_plus_q_witness:
  "calcPerpProj (Vec3 1 0 1) (Vec3 (5 / 4) 1 2)
     (vsub (Vec3 1 0 1) (Vec3 (- 1) 0 1)) (vsub (Vec3 (5 / 4) 1 2) (Vec3 (5 / 4) (- 1) 2))
     = - 1 / 2
   \<and> vadd (Vec3 1 0 1) (smul (- 1 / 2) (vsub (Vec3 1 0 1) (Vec3 (- 1) 0 1))) = Vec3 0 0 1
   \<and> calculateSpacePoints
       (twoStrips (Vec3 1 0 1) (Vec3 (- 1) 0 1) (Vec3 (5 / 4) 1 2) (Vec3 (5 / 4) (- 1) 2))
       (config Zero3 0 0 True) [candidate01] ! 0
     = Inr (candidate01\<lparr>spacePoint := Vec3 3 0 1\<rparr>)"
  using perp_projection_stores_a_plus_q [where i = 0 and storage = "[candidate01]"
      and hits = candidate01 and dhCfg = "config Zero3 0 0 True"
      and det = "twoStrips (Vec3 1 0 1) (Vec3 (- 1) 0 1) (Vec3 (5 / 4) 1 2) (Vec3 (5 / 4) (- 1) 2)"
      and a = "Vec3 1 0 1" and b = "Vec3 (- 1) 0 1"
      and c = "Vec3 (5 / 4) 1 2" and d = "Vec3 (5 / 4) (- 1) 2",
      OF _ _ _ _ _ _ refl refl]
  by (simp add: candidate01_simps config_def calcPerpProj_def)

text \<open>
  Claim C2 says that in perpendicular-projection mode every candidate with \<open>\<lambda> > 0\<close> keeps
  an unset position. Counterexample: for the front strip from \<open>(1, 0, 1)\<close> to
  \<open>(-1, 0, 1)\<close> and the back strip from \<open>(7/8, 3/2, 2)\<close> to \<open>(7/8, -1/2, 2)\<close>,
  \<open>\<lambda> = 1/4\<close>, and the candidate gets the position \<open>(7/16, 0, 1)\<close>.
\<close>

theorem perp_rejected_candidate_set_counterexample:
  "calcPerpProj (Vec3 1 0 1) (Vec3 (7 / 8) (3 / 2) 2)
     (vsub (Vec3 1 0 1) (Vec3 (- 1) 0 1)) (vsub (Vec3 (7 / 8) (3 / 2) 2) (Vec3 (7 / 8) (- 1 / 2) 2))
     = 1 / 4
   \<and> calculateSpacePoints
       (twoStrips (Vec3 1 0 1) (Vec3 (- 1) 0 1) (Vec3 (7 / 8) (3 / 2) 2) (Vec3 (7 / 8) (- 1 / 2) 2))
       (config Zero3 0 0 True) [candidate01]
     = [Inr (candidate01\<lparr>spacePoint := Vec3 (7 / 16) 0 1\<rparr>)]"
  by (simp add: example_simps)

text \<open>
  Claim C2, amended. In perpendicular-projection mode a candidate with \<open>\<lambda> > 0\<close>, which
  includes the degenerate case where the denominator \<open>q \<cdot> q - (q \<cdot> r)\<^sup>2\<close> has a
  magnitude of at most \<open>10e-7\<close> and \<open>\<lambda>\<close> is the sentinel 1, gets no position from the
  projection: it is solved as in vertex-based mode, and its position stays unset only if
  the vertex-based solution and the recovery find none.
\<close>

theorem perp_rejected_solved_by_vertex:
  assumes "i < length storage" and "hits = storage ! i"
    and ends1: "endsOfCluster det (hitModuleFront hits) = Inr (a, b)"
    and ends2: "endsOfCluster det (hitModuleBack hits) = Inr (c, d)"
    and mode: "usePerpProj dhCfg"
    and q: "q = vsub a b" and r: "r = vsub c d"
    and rejected: "calcPerpProj a c q r > 0 \<or> \<bar>dot q q - dot q r * dot q r\<bar> \<le> 1 / 1000000"
  shows "calcPerpProj a c q r > 0
       \<and> calculateSpacePoints det dhCfg storage ! i =
           calculateSpacePoints det (dhCfg\<lparr>usePerpProj := False\<rparr>) storage ! i"
proof -
  have pos: "calcPerpProj a c q r > 0"
    using rejected calcPerpProj_degenerate [of q r a c] by auto
  then have "\<not> calcPerpProj a c (vsub a b) (vsub c d) \<le> 0"
    by (simp add: q r)
  then have "calculateSpacePoint det dhCfg hits =
          calculateSpacePoint det (dhCfg\<lparr>usePerpProj := False\<rparr>) hits"
    using ends1 ends2
    by (simp add: calculateSpacePoint_def reset_def Let_def recoverSpacePoint_usePerpProj
          cong: if_cong)
  then show ?thesis
    using pos assms(1,2) by (simp add: calculateSpacePoints_def)
qed

text \<open>The amended claim C2 at the candidate of the counterexample.\<close>

theorem perp_rejected_solved_by_vertex_witness:
  "calculateSpacePoints
     (twoStrips (Vec3 1 0 1) (Vec3 (- 1) 0 1) (Vec3 (7 / 8) (3 / 2) 2) (Vec3 (7 / 8) (- 1 / 2) 2))
     (config Zero3 0 0 True) [candidate01] ! 0 =
   calculateSpacePoints
     (twoStrips (Vec3 1 0 1) (Vec3 (- 1) 0 1) (Vec3 (7 / 8) (3 / 2) 2) (Vec3 (7 / 8) (- 1 / 2) 2))
     (config Zero3 0 0 False) [candidate01] ! 0"
  using perp_rejected_solved_by_vertex [where i = 0 and storage = "[candidate01]"
      and hits = candidate01 and dhCfg = "config Zero3 0 0 True"
      and det = "twoStrips (Vec3 1 0 1) (Vec3 (- 1) 0 1) (Vec3 (7 / 8) (3 / 2) 2)
                   (Vec3 (7 / 8) (- 1 / 2) 2)"
      and a = "Vec3 1 0 1" and b = "Vec3 (- 1) 0 1"
      and c = "Vec3 (7 / 8) (3 / 2) 2" and d = "Vec3 (7 / 8) (- 1 / 2) 2",
      OF _ _ _ _ _ refl refl]
  by (simp add: candidate01_simps config_def calcPerpProj_def)

text \<open>
  Claim C3 says that the sentinel of an unset position is distinct from every valid
  coordinate, the origin included, so that a candidate solved to the origin is never taken
  for an unsolved one. Counterexample: with the vertex \<open>(-1/4, 0, -1)\<close>, the front strip
  from \<open>(3/4, 0, 0)\<close> to \<open>(-5/4, 0, 0)\<close> and the back strip from \<open>(1/4, 3/2, 1)\<close> to
  \<open>(1/4, -1/2, 1)\<close>, the solution \<open>m = 1/4\<close>, \<open>n = -1/2\<close> is within the limit and the
  position stored is the origin, which is the unset position. The next pass, here with the
  vertex \<open>(0, 0, -1)\<close>, solves the candidate again and moves it to \<open>(1/8, 0, 0)\<close>.
\<close>

theorem origin_solution_unset_counterexample:
  "solveM (Vec3 (- 1 / 4) 0 (- 1))
     (Vec3 (3 / 4) 0 0) (Vec3 (- 5 / 4) 0 0) (Vec3 (1 / 4) (3 / 2) 1) (Vec3 (1 / 4) (- 1 / 2) 1)
     = 1 / 4
   \<and> solveN (Vec3 (- 1 / 4) 0 (- 1))
     (Vec3 (3 / 4) 0 0) (Vec3 (- 5 / 4) 0 0) (Vec3 (1 / 4) (3 / 2) 1) (Vec3 (1 / 4) (- 1 / 2) 1)
     = - 1 / 2
   \<and> calculateSpacePoints
       (twoStrips (Vec3 (3 / 4) 0 0) (Vec3 (- 5 / 4) 0 0) (Vec3 (1 / 4) (3 / 2) 1)
          (Vec3 (1 / 4) (- 1 / 2) 1))
       (config (Vec3 (- 1 / 4) 0 (- 1)) 0 0 False) [candidate01]
     = [Inr (candidate01\<lparr>spacePoint := Zero3\<rparr>)]
   \<and> calculateSpacePoints
       (twoStrips (Vec3 (3 / 4) 0 0) (Vec3 (- 5 / 4) 0 0) (Vec3 (1 / 4) (3 / 2) 1)
          (Vec3 (1 / 4) (- 1 / 2) 1))
       (config (Vec3 0 0 (- 1)) 0 0 False) [candidate01\<lparr>spacePoint := Zero3\<rparr>]
     = [Inr (candidate01\<lparr>spacePoint := Vec3 (1 / 8) 0 0\<rparr>)]"
  by (simp add: example_simps)

text \<open>
  Claim C3, amended. The unset position is the zero vector, that is the coordinate origin.
  \<open>calculateSpacePoints\<close> attempts to solve exactly the candidates whose position is the
  zero vector: a candidate with another position is left as it is, and a candidate with
  the zero position, whether never solved or solved to the origin, is solved like the
  newly made candidate of its two clusters.
\<close>

theorem solves_exactly_zero_positions:
  assumes "i < length storage" and "hits = storage ! i"
  shows "calculateSpacePoints det dhCfg storage ! i =
           (if spacePoint hits \<noteq> Zero3 then Inr hits
            else calculateSpacePoint det dhCfg
                   (newSpacePoint (hitModuleFront hits) (hitModuleBack hits)))"
proof (cases "spacePoint hits = Zero3")
  case True
  then have "hits = newSpacePoint (hitModuleFront hits) (hitModuleBack hits)"
    by (simp add: newSpacePoint_def)
  then show ?thesis
    using True assms by (simp add: calculateSpacePoints_def)
next
  case False
  then show ?thesis
    using assms by (simp add: calculateSpacePoints_def calculateSpacePoint_set)
qed

text \<open>
  The amended claim C3 on a storage of two candidates: the first has a position and is
  kept, the second has the zero position and is solved.
\<close>

theorem solves_exactly_zero_positions_witness:
  "calculateSpacePoints
     (twoStrips (Vec3 1 0 1) (Vec3 (- 1) 0 1) (Vec3 (1 / 2) (3 / 2) 2) (Vec3 (1 / 2) (- 1 / 2) 2))
     (config Zero3 0 0 False)
     [candidate01\<lparr>spacePoint := Vec3 5 5 5\<rparr>, candidate01\<lparr>spacePoint := Zero3\<rparr>] ! 0
   = Inr (candidate01\<lparr>spacePoint := Vec3 5 5 5\<rparr>)
   \<and> calculateSpacePoints
     (twoStrips (Vec3 1 0 1) (Vec3 (- 1) 0 1) (Vec3 (1 / 2) (3 / 2) 2) (Vec3 (1 / 2) (- 1 / 2) 2))
     (config Zero3 0 0 False)
     [candidate01\<lparr>spacePoint := Vec3 5 5 5\<rparr>, candidate01\<lparr>spacePoint := Zero3\<rparr>] ! 1
   = calculateSpacePoint
     (twoStrips (Vec3 1 0 1) (Vec3 (- 1) 0 1) (Vec3 (1 / 2) (3 / 2) 2) (Vec3 (1 / 2) (- 1 / 2) 2))
     (config Zero3 0 0 False) candidate01"
  using solves_exactly_zero_positions [where i = 0
      and storage = "[candidate01\<lparr>spacePoint := Vec3 5 5 5\<rparr>, candidate01\<lparr>spacePoint := Zero3\<rparr>]"
      and hits = "candidate01\<lparr>spacePoint := Vec3 5 5 5\<rparr>"]
    solves_exactly_zero_positions [where i = 1
      and storage = "[candidate01\<lparr>spacePoint := Vec3 5 5 5\<rparr>, candidate01\<lparr>spacePoint := Zero3\<rparr>]"
      and hits = "candidate01\<lparr>spacePoint := Zero3\<rparr>"]
  by (simp add: Zero3_def candidate01_def newSpacePoint_def)

text \<open>
  Claim C5. In vertex-based mode, for a candidate that is not yet solved, with the strip
  ends \<open>a\<close>, \<open>b\<close> (front) and \<open>c\<close>, \<open>d\<close> (back), the solver computes
  \<open>m = - (s \<cdot> rt) / (q \<cdot> rt)\<close> and \<open>n = - (t \<cdot> qs) / (r \<cdot> qs)\<close> with
  \<open>s = a + b - 2 vertex\<close>, \<open>t = c + d - 2 vertex\<close>, \<open>qs = q \<times> s\<close>, \<open>rt = r \<times> t\<close>; the
  limit is 1, and \<open>1 + stripLengthTolerance\<close> when that tolerance is not 0; and whenever
  both \<open>|m|\<close> and \<open>|n|\<close> are within the limit, the position \<open>(a + b + m q) / 2\<close> is
  stored. The two divisors are taken to be different from 0.
\<close>

theorem vertex_solution_stored:
  assumes "i < length storage" and "hits = storage ! i"
    and unset: "spacePoint hits = Zero3"
    and mode: "\<not> usePerpProj dhCfg"
    and ends1: "endsOfCluster det (hitModuleFront hits) = Inr (a, b)"
    and ends2: "endsOfCluster det (hitModuleBack hits) = Inr (c, d)"
    and q: "q = vsub a b" and r: "r = vsub c d"
    and s: "s = vsub (vadd a b) (smul 2 (vertex dhCfg))"
    and t: "t = vsub (vadd c d) (smul 2 (vertex dhCfg))"
    and qs: "qs = cross q s" and rt: "rt = cross r t"
    and qrt: "dot q rt \<noteq> 0" and rqs: "dot r qs \<noteq> 0"
    and m: "m = - dot s rt / dot q rt" and n: "n = - dot t qs / dot r qs"
    and limit: "limit = (if stripLengthTolerance dhCfg \<noteq> 0
                         then 1 + stripLengthTolerance dhCfg else 1)"
    and within: "\<bar>m\<bar> \<le> limit" "\<bar>n\<bar> \<le> limit"
  shows "calculateSpacePoints det dhCfg storage ! i =
           Inr (hits\<lparr>spacePoint := smul (1 / 2) (vadd (vadd a b) (smul m q))\<rparr>)"
proof -
  from mode have mode': "\<not> usePerpProj dhCfg \<or> calcPerpProj a c (vsub a b) (vsub c d) > 0"
    by simp
  have "calculateSpacePoint det dhCfg hits =
          Inr (hits\<lparr>spacePoint := smul (1 / 2) (vadd (vadd a b) (smul m q))\<rparr>)"
    using calculateSpacePoint_vertex [OF unset ends1 ends2 mode' q r s t qs rt qrt rqs m n limit]
      within by simp
  then show ?thesis
    using assms(1,2) by (simp add: calculateSpacePoints_def)
qed

text \<open>
  Claim C5 at the front strip from \<open>(1, 0, 1)\<close> to \<open>(-1, 0, 1)\<close> and the back strip from
  \<open>(1/2, 3/2, 2)\<close> to \<open>(1/2, -1/2, 2)\<close>, with the vertex at the origin: \<open>m = 1/4\<close>,
  \<open>n = -1/2\<close>.
\<close>

theorem vertex_solution_stored_witness:
  "calculateSpacePoints
     (twoStrips (Vec3 1 0 1) (Vec3 (- 1) 0 1) (Vec3 (1 / 2) (3 / 2) 2) (Vec3 (1 / 2) (- 1 / 2) 2))
     (config Zero3 0 0 False) [candidate01] ! 0 =
   Inr (candidate01\<lparr>spacePoint := Vec3 (1 / 4) 0 1\<rparr>)"
  using vertex_solution_stored [of 0 "[candidate01]" candidate01 "config Zero3 0 0 False"
      "twoStrips (Vec3 1 0 1) (Vec3 (- 1) 0 1) (Vec3 (1 / 2) (3 / 2) 2) (Vec3 (1 / 2) (- 1 / 2) 2)"
      "Vec3 1 0 1" "Vec3 (- 1) 0 1" "Vec3 (1 / 2) (3 / 2) 2" "Vec3 (1 / 2) (- 1 / 2) 2",
      OF _ _ _ _ _ _ refl refl refl refl refl refl _ _ refl refl refl]
  by (simp add: candidate01_simps config_def Zero3_def)



text \<open>
  Claim C7 says that the recovery never succeeds when one of \<open>m\<close>, \<open>n\<close> lies within the
  valid interval and the other does not. Counterexample: with \<open>stripLengthTolerance =
  1/2\<close> the valid interval is \<open>[-3/2, 3/2]\<close>; for the front strip from \<open>(1, 0, 1)\<close> to
  \<open>(-1, 0, 1)\<close> and the back strip from \<open>(13/4, -1/4, 2)\<close> to \<open>(5/4, -9/4, 2)\<close>,
  \<open>m = 7/4\<close> lies outside and \<open>n = 5/4\<close> inside, and the recovery succeeds: the
  candidate gets the position \<open>(1, 0, 1)\<close>.
\<close>

theorem recovery_one_within_limit_counterexample:
  "solveM Zero3 (Vec3 1 0 1) (Vec3 (- 1) 0 1) (Vec3 (13 / 4) (- 1 / 4) 2) (Vec3 (5 / 4) (- 9 / 4) 2)
     = 7 / 4
   \<and> solveN Zero3 (Vec3 1 0 1) (Vec3 (- 1) 0 1) (Vec3 (13 / 4) (- 1 / 4) 2) (Vec3 (5 / 4) (- 9 / 4) 2)
     = 5 / 4
   \<and> calculateSpacePoints
       (twoStrips (Vec3 1 0 1) (Vec3 (- 1) 0 1) (Vec3 (13 / 4) (- 1 / 4) 2) (Vec3 (5 / 4) (- 9 / 4) 2))
       (config Zero3 (1 / 2) 1 False) [candidate01]
     = [Inr (candidate01\<lparr>spacePoint := Vec3 1 0 1\<rparr>)]"
  by (simp add: example_simps)

text \<open>
  Claim C7, amended. The overshoot that the recovery corrects is measured against the
  regular interval \<open>[-1, 1]\<close>, not against the limit: the recovery never succeeds for a
  candidate whose \<open>m\<close> and \<open>n\<close> leave \<open>[-1, 1]\<close> in opposite directions, or where one of
  \<open>m\<close>, \<open>n\<close> lies within \<open>[-1, 1]\<close>; the position of such a candidate, when the direct
  solution does not resolve it, remains unset. The divisors \<open>q \<cdot> rt\<close> and \<open>r \<cdot> qs\<close> are
  taken to be different from 0.
\<close>

theorem recovery_needs_same_direction:
  assumes "i < length storage" and "hits = storage ! i"
    and unset: "spacePoint hits = Zero3"
    and mode: "\<not> usePerpProj dhCfg"
    and ends1: "endsOfCluster det (hitModuleFront hits) = Inr (a, b)"
    and ends2: "endsOfCluster det (hitModuleBack hits) = Inr (c, d)"
    and q: "q = vsub a b" and r: "r = vsub c d"
    and s: "s = vsub (vadd a b) (smul 2 (vertex dhCfg))"
    and t: "t = vsub (vadd c d) (smul 2 (vertex dhCfg))"
    and qs: "qs = cross q s" and rt: "rt = cross r t"
    and qrt: "dot q rt \<noteq> 0" and rqs: "dot r qs \<noteq> 0"
    and m: "m = - dot s rt / dot q rt" and n: "n = - dot t qs / dot r qs"
    and limit: "limit = (if stripLengthTolerance dhCfg \<noteq> 0
                         then 1 + stripLengthTolerance dhCfg else 1)"
    and outside: "\<not> (\<bar>m\<bar> \<le> limit \<and> \<bar>n\<bar> \<le> limit)"
    and other: "\<bar>m\<bar> \<le> 1 \<or> \<bar>n\<bar> \<le> 1 \<or> (m > 1 \<and> n < - 1) \<or> (m < - 1 \<and> n > 1)"
  shows "calculateSpacePoints det dhCfg storage ! i = Inr hits"
proof -
  define spaPoPa where "spaPoPa = solveState dhCfg a b c d m (if \<bar>m\<bar> \<le> limit then n else 0)"
  from mode have mode': "\<not> usePerpProj dhCfg \<or> calcPerpProj a c (vsub a b) (vsub c d) > 0"
    by simp
  have sq: "spa_q spaPoPa = q" and sr: "spa_r spaPoPa = r" and sm: "spa_m spaPoPa = m"
    and st: "spa_t spaPoPa = t" and sqs: "spa_qs spaPoPa = qs"
    by (simp_all add: spaPoPa_def solveState_simps q r s t qs)
  have q0: "mag (spa_q spaPoPa) \<noteq> 0"
    using dot_nonzero_mag [OF qrt] by (simp add: sq)
  have n0: "spa_n spaPoPa = 0 \<longrightarrow> dot (spa_r spaPoPa) (spa_qs spaPoPa) \<noteq> 0"
    using rqs by (simp add: sr sqs)
  have n': "n = (if spa_n spaPoPa = 0
                then - dot (spa_t spaPoPa) (spa_qs spaPoPa) / dot (spa_r spaPoPa) (spa_qs spaPoPa)
                else spa_n spaPoPa)"
    unfolding st sqs sr using n by (simp add: spaPoPa_def solveState_simps)
  have o1: "\<not> (spa_m spaPoPa > 1 \<and> n > 1)" and o2: "\<not> (spa_m spaPoPa < - 1 \<and> n < - 1)"
    using other unfolding sm by linarith+
  obtain p' where p': "recoverSpacePoint spaPoPa dhCfg = Inr (False, p')"
    using recoverSpacePoint_other [OF q0 n0 n' o1 o2] by blast
  have "calculateSpacePoint det dhCfg hits =
          bindF (recoverSpacePoint spaPoPa dhCfg)
            (\<lambda>(recovered, p6). if recovered then Inr (storePoint hits (a, b) p6) else Inr hits)"
    unfolding spaPoPa_def
    by (simp only: calculateSpacePoint_vertex
          [OF unset ends1 ends2 mode' q r s t qs rt qrt rqs m n limit] if_not_P [OF outside])
  also have "\<dots> = Inr hits"
    using p' by simp
  finally show ?thesis
    using assms(1,2) by (simp add: calculateSpacePoints_def)
qed

text \<open>
  The amended claim C7 at the front strip from \<open>(1, 0, 1)\<close> to \<open>(-1, 0, 1)\<close> and the back
  strip from \<open>(19/4, 9/4, 2)\<close> to \<open>(11/4, 1/4, 2)\<close>: \<open>m = 5/4\<close> and \<open>n = -5/4\<close> overshoot
  in opposite directions.
\<close>

theorem recovery_needs_same_direction_witness:
  "calculateSpacePoints
     (twoStrips (Vec3 1 0 1) (Vec3 (- 1) 0 1) (Vec3 (19 / 4) (9 / 4) 2) (Vec3 (11 / 4) (1 / 4) 2))
     (config Zero3 0 1 False) [candidate01] ! 0 = Inr candidate01"
  using recovery_needs_same_direction [where i = 0 and storage = "[candidate01]"
      and hits = candidate01 and dhCfg = "config Zero3 0 1 False"
      and det = "twoStrips (Vec3 1 0 1) (Vec3 (- 1) 0 1) (Vec3 (19 / 4) (9 / 4) 2)
                   (Vec3 (11 / 4) (1 / 4) 2)"
      and a = "Vec3 1 0 1" and b = "Vec3 (- 1) 0 1"
      and c = "Vec3 (19 / 4) (9 / 4) 2" and d = "Vec3 (11 / 4) (1 / 4) 2",
      OF _ _ _ _ _ _ refl refl refl refl refl refl _ _ refl refl refl]
  by (simp add: candidate01_simps config_def Zero3_def)



section \<open>The claims about the matcher and the clusterer\<close>

text \<open>
  Claim C9. A back cluster whose midpoint is farther than \<open>diffDist\<close> from the midpoint
  of a front cluster is never selected for it, whatever the angles \<open>phi\<close> and \<open>theta\<close>
  are: \<open>differenceOfHits\<close> returns the sentinel \<open>-1\<close> for such a pair, the scan accepts
  only scores that are at least 0 and below the running minimum, and so the two clusters
  of every candidate that \<open>addHits\<close> appends have midpoints at most \<open>diffDist\<close> apart.
\<close>

theorem far_back_cluster_never_selected:
  assumes "addHits det phi theta dhCfg spacePoints hitsFront hitsBack = Inr spacePoints'"
  shows "(\<forall>pos1 pos2. mag (vsub pos1 pos2) > diffDist dhCfg
            \<longrightarrow> differenceOfHits phi theta pos1 pos2 dhCfg = - 1)
       \<and> (\<exists>new. spacePoints' = spacePoints @ new \<and>
            (\<forall>sp \<in> set new. \<exists>pf pb. clusterPoint det (hitModuleFront sp) = Inr pf
               \<and> clusterPoint det (hitModuleBack sp) = Inr pb
               \<and> mag (vsub pf pb) \<le> diffDist dhCfg))"
proof -
  have "\<exists>new. spacePoints' = spacePoints @ new \<and>
            (\<forall>sp \<in> set new. \<exists>pf pb. clusterPoint det (hitModuleFront sp) = Inr pf
               \<and> clusterPoint det (hitModuleBack sp) = Inr pb
               \<and> mag (vsub pf pb) \<le> diffDist dhCfg)"
  proof (cases "hitsFront = [] \<or> hitsBack = []")
    case True
    then have "spacePoints' = spacePoints" using assms by (simp add: addHits_def)
    then show ?thesis by simp
  next
    case False
    from assms False obtain clustersFront where
      cf: "clusterSpacePoints det hitsFront (clusterFrontHits dhCfg) = Inr clustersFront"
      by (cases "clusterSpacePoints det hitsFront (clusterFrontHits dhCfg)")
         (simp_all add: addHits_def)
    show ?thesis
    proof (cases "clustersFront = []")
      case True
      then have "spacePoints' = spacePoints" using assms False cf by (simp add: addHits_def)
      then show ?thesis by simp
    next
      case nonemptyFront: False
      from assms False cf nonemptyFront obtain clustersBack where
        cb: "clusterSpacePoints det hitsBack (clusterBackHits dhCfg) = Inr clustersBack"
        by (cases "clusterSpacePoints det hitsBack (clusterBackHits dhCfg)")
           (simp_all add: addHits_def)
      show ?thesis
      proof (cases "clustersBack = []")
        case True
        then have "spacePoints' = spacePoints"
          using assms False cf nonemptyFront cb by (simp add: addHits_def)
        then show ?thesis by simp
      next
        case nonemptyBack: False
        have "matchClusters det phi theta dhCfg clustersBack clustersFront spacePoints
                = Inr spacePoints'"
          using assms False cf nonemptyFront cb nonemptyBack by (simp add: addHits_def)
        then show ?thesis by (rule matchClusters_within)
      qed
    qed
  qed
  then show ?thesis by (simp add: differenceOfHits_far)
qed

text \<open>
  Claim C9 at a front hit with the midpoint \<open>(0, 0, 1)\<close> and a back hit with the midpoint
  \<open>(0, 0, 2)\<close>, with \<open>diffDist = 100\<close>: the candidate of the two is appended.
\<close>

theorem far_back_cluster_never_selected_witness:
  "\<exists>pf pb.
     clusterPoint (twoStrips (Vec3 1 0 1) (Vec3 (- 1) 0 1) (Vec3 0 1 2) (Vec3 0 (- 1) 2))
       (hitModuleFront candidate01) = Inr pf
     \<and> clusterPoint (twoStrips (Vec3 1 0 1) (Vec3 (- 1) 0 1) (Vec3 0 1 2) (Vec3 0 (- 1) 2))
       (hitModuleBack candidate01) = Inr pb
     \<and> mag (vsub pf pb) \<le> diffDist (config Zero3 0 0 False)"
proof -
  have "addHits (twoStrips (Vec3 1 0 1) (Vec3 (- 1) 0 1) (Vec3 0 1 2) (Vec3 0 (- 1) 2))
          (\<lambda>v. 0) (\<lambda>v. 0) (config Zero3 0 0 False) [] [0] [1] = Inr [candidate01]"
    using DBL_MAX_pos
    by (simp add: addHits_def clusterSpacePoints_def clusterPoint_twoStrips differenceOfHits_def
          config_def candidate01_def mag_Vec3 Let_def)
  from far_back_cluster_never_selected [OF this] show ?thesis
    by simp
qed

text \<open>
  Claim C8 says that hits of more than one surface, given to one clustering call, yield
  an empty cluster set for every such input. Counterexample: with clustering disabled the
  surfaces are not compared; the hits 0 and 1 of two surfaces become two clusters, and
  \<open>addHits\<close> builds candidates from them.
\<close>

theorem multi_surface_unclustered_counterexample:
  "referenceSurface (twoStrips (Vec3 1 0 1) (Vec3 (- 1) 0 1) (Vec3 0 1 2) (Vec3 0 (- 1) 2)) 0
     \<noteq> referenceSurface (twoStrips (Vec3 1 0 1) (Vec3 (- 1) 0 1) (Vec3 0 1 2) (Vec3 0 (- 1) 2)) 1
   \<and> clusterSpacePoints (twoStrips (Vec3 1 0 1) (Vec3 (- 1) 0 1) (Vec3 0 1 2) (Vec3 0 (- 1) 2))
       [0, 1] False = Inr [(Some 0, None), (Some 1, None)]
   \<and> addHits (twoStrips (Vec3 1 0 1) (Vec3 (- 1) 0 1) (Vec3 0 1 2) (Vec3 0 (- 1) 2))
       (\<lambda>v. 0) (\<lambda>v. 0) ((config Zero3 0 0 False)\<lparr>clusterFrontHits := False\<rparr>) [] [0, 1] [1]
     = Inr [newSpacePoint (Some 0, None) (Some 1, None),
            newSpacePoint (Some 1, None) (Some 1, None)]"
proof (intro conjI)
  show "referenceSurface (twoStrips (Vec3 1 0 1) (Vec3 (- 1) 0 1) (Vec3 0 1 2) (Vec3 0 (- 1) 2)) 0
     \<noteq> referenceSurface (twoStrips (Vec3 1 0 1) (Vec3 (- 1) 0 1) (Vec3 0 1 2) (Vec3 0 (- 1) 2)) 1"
    by (simp add: twoStrips_def)
  show "clusterSpacePoints (twoStrips (Vec3 1 0 1) (Vec3 (- 1) 0 1) (Vec3 0 1 2) (Vec3 0 (- 1) 2))
       [0, 1] False = Inr [(Some 0, None), (Some 1, None)]"
    by (simp add: clusterSpacePoints_def)
  show "addHits (twoStrips (Vec3 1 0 1) (Vec3 (- 1) 0 1) (Vec3 0 1 2) (Vec3 0 (- 1) 2))
       (\<lambda>v. 0) (\<lambda>v. 0) ((config Zero3 0 0 False)\<lparr>clusterFrontHits := False\<rparr>) [] [0, 1] [1]
     = Inr [newSpacePoint (Some 0, None) (Some 1, None),
            newSpacePoint (Some 1, None) (Some 1, None)]"
    using DBL_MAX_pos
    by (simp add: addHits_def clusterSpacePoints_def clusterPoint_twoStrips differenceOfHits_def
          config_def mag_Vec3 Let_def)
qed

text \<open>
  Claim C8, amended. With clustering enabled, hits that span more than one surface yield
  the empty cluster set, and \<open>addHits\<close> builds no candidate from them, as front hits or
  as back hits; with clustering disabled every hit is a cluster of its own, whatever its
  surface. The hits on the surface of the first hit are taken to lie in bins of its grid.
\<close>

theorem multi_surface_rejected:
  assumes "\<exists>h \<in> set hits. referenceSurface det h \<noteq> referenceSurface det (hd hits)"
    and "\<forall>h \<in> set hits. referenceSurface det h = referenceSurface det (hd hits) \<longrightarrow>
           fst (binOfHit det h) < nBins (fst (binningData det (hd hits)))
         \<and> snd (binOfHit det h) < nBins (snd (binningData det (hd hits)))"
  shows "clusterSpacePoints det hits True = Inr []
       \<and> (clusterFrontHits dhCfg \<longrightarrow>
            addHits det phi theta dhCfg spacePoints hits hitsBack = Inr spacePoints)
       \<and> (clusterBackHits dhCfg \<longrightarrow>
            (\<forall>spacePoints'. addHits det phi theta dhCfg spacePoints hitsFront hits = Inr spacePoints'
               \<longrightarrow> spacePoints' = spacePoints))"
proof -
  have empty: "clusterSpacePoints det hits True = Inr []"
    using clusterSpacePoints_multi [OF assms] .
  have front: "addHits det phi theta dhCfg spacePoints hits hitsBack = Inr spacePoints"
    if "clusterFrontHits dhCfg"
    using that empty by (simp add: addHits_def)
  have rear: "spacePoints' = spacePoints"
    if "clusterBackHits dhCfg"
      and "addHits det phi theta dhCfg spacePoints hitsFront hits = Inr spacePoints'"
    for spacePoints'
    using that empty
    by (cases "clusterSpacePoints det hitsFront (clusterFrontHits dhCfg)")
       (auto simp add: addHits_def split: if_splits)
  from empty front rear show ?thesis by blast
qed

text \<open>The amended claim C8 at the hits 0 and 1, which lie on two surfaces.\<close>

theorem multi_surface_rejected_witness:
  "clusterSpacePoints (twoStrips (Vec3 1 0 1) (Vec3 (- 1) 0 1) (Vec3 0 1 2) (Vec3 0 (- 1) 2))
     [0, 1] True = Inr []"
  using multi_surface_rejected [where hits = "[0, 1]"
      and det = "twoStrips (Vec3 1 0 1) (Vec3 (- 1) 0 1) (Vec3 0 1 2) (Vec3 0 (- 1) 2)"]
  by (simp add: binOfHit_twoStrips) (simp add: twoStrips_def binningData_def stripSurface_def)

text \<open>
  Claim C4 says that with clustering enabled the clusters partition the input hits, every
  hit being in exactly one cluster, and that the two hits of a two-hit cluster lie in
  bin-adjacent cells. Counterexample: for the four hits of \<open>exampleBins\<close> the clusters are
  \<open>(1, 2)\<close>, \<open>(2, 3)\<close> and \<open>(3, -)\<close>. The hit 0, overwritten in its cell by the hit 1, is
  in no cluster; the hit 2 is in two clusters; and the cluster \<open>(2, 3)\<close> joins the cells
  \<open>(2, 0)\<close> and \<open>(0, 1)\<close>, which share no edge.
\<close>

theorem clusters_overlap_counterexample:
  "clusterSpacePoints (gridDetector 3 2 exampleBins) [0, 1, 2, 3] True =
     Inr [(Some 1, Some 2), (Some 2, Some 3), (Some 3, None)]
   \<and> binOfHit (gridDetector 3 2 exampleBins) 0 = (1, 0)
   \<and> binOfHit (gridDetector 3 2 exampleBins) 1 = (1, 0)
   \<and> binOfHit (gridDetector 3 2 exampleBins) 2 = (2, 0)
   \<and> binOfHit (gridDetector 3 2 exampleBins) 3 = (0, 1)"
  using example_clusters by (simp add: binOfHit_gridDetector exampleBins_def)

text \<open>
  Claim C4, amended. With clustering enabled and hits of one surface: every cluster holds
  one or two hits, all of them hits of the input; every input hit that is the last of its
  cell appears in at least one cluster; and the two hits of a two-hit cluster whose first
  hit is not in the last cell of its scan line lie in cells that share an edge, the second
  in the next cell of the line. The scan lines run along x when the grid has more bins in
  x than in y, and along y otherwise.
\<close>

theorem clusters_of_one_surface:
  assumes run: "clusterSpacePoints det hits True = Inr clusters"
    and same: "\<forall>h \<in> set hits. referenceSurface det h = referenceSurface det (hd hits)"
    and nX: "nX = nBins (fst (binningData det (hd hits)))"
    and nY: "nY = nBins (snd (binningData det (hd hits)))"
  shows "(\<forall>cl \<in> set clusters. (\<exists>h1 \<in> set hits. fst cl = Some h1)
            \<and> (snd cl = None \<or> (\<exists>h2 \<in> set hits. snd cl = Some h2)))
       \<and> (\<forall>h. lastInCell det hits h \<longrightarrow> (\<exists>cl \<in> set clusters. fst cl = Some h \<or> snd cl = Some h))
       \<and> (\<forall>h1 h2. (Some h1, Some h2) \<in> set clusters \<longrightarrow>
            (if nX > nY
             then fst (binOfHit det h1) + 1 < nX \<longrightarrow>
                    binOfHit det h2 = (fst (binOfHit det h1) + 1, snd (binOfHit det h1))
             else snd (binOfHit det h1) + 1 < nY \<longrightarrow>
                    binOfHit det h2 = (fst (binOfHit det h1), snd (binOfHit det h1) + 1)))"
proof (cases "length hits = 1")
  case True
  then obtain h where hits: "hits = [h]"
    by (cases hits) auto
  then have "clusters = [(Some h, None)]"
    using run by (simp add: clusterSpacePoints_def)
  then show ?thesis
    using hits by (simp add: lastInCell_def)
next
  case False
  from run False obtain bins where sorted: "sortHits det hits = Inr bins"
    and cl: "clusters = (if bins = [] then [] else scanBins bins)"
    by (cases "sortHits det hits") (auto simp add: clusterSpacePoints_def split: if_splits)
  note grid = sortHits_single [OF same sorted nX nY]
  from grid have len: "length bins = nX" and rows: "\<And>x. x < nX \<Longrightarrow> length (bins ! x) = nY"
    and inrange: "\<And>h. h \<in> set hits \<Longrightarrow> fst (binOfHit det h) < nX \<and> snd (binOfHit det h) < nY"
    and cell: "\<And>x y. x < nX \<Longrightarrow> y < nY \<Longrightarrow> bins ! x ! y =
               (if filter (\<lambda>h. binOfHit det h = (x, y)) hits = [] then None
                else Some (last (filter (\<lambda>h. binOfHit det h = (x, y)) hits)))"
    by blast+
  have "hits \<noteq> []"
    using sorted by (auto simp add: sortHits_def)
  then have "hd hits \<in> set hits" by simp
  from inrange [OF this] have "0 < nX" by simp
  then have nonempty: "bins \<noteq> []" and row0: "length (bins ! 0) = nY"
    using len rows by auto
  have held: "h \<in> set hits \<and> binOfHit det h = (x, y)"
    if "x < nX" "y < nY" "bins ! x ! y = Some h" for x y h
    using grid_cell_hit [OF cell [OF that(1,2)] that(3)] .
  have kept: "fst (binOfHit det h) < nX \<and> snd (binOfHit det h) < nY
      \<and> bins ! fst (binOfHit det h) ! snd (binOfHit det h) = Some h"
    if "lastInCell det hits h" for h
  proof -
    from that have "h \<in> set hits" by (simp add: lastInCell_def)
    from inrange [OF this] have r: "fst (binOfHit det h) < nX" "snd (binOfHit det h) < nY"
      by simp_all
    from cell [OF r] have "bins ! fst (binOfHit det h) ! snd (binOfHit det h) =
           (if filter (\<lambda>h'. binOfHit det h' = binOfHit det h) hits = [] then None
            else Some (last (filter (\<lambda>h'. binOfHit det h' = binOfHit det h) hits)))"
      by simp
    from lastInCell_grid [OF that this] r show ?thesis by simp
  qed
  show ?thesis
  proof (cases "nX > nY")
    case True
    then have scan: "clusters = scanCells None (map snd (gridCells nY nX (\<lambda>iY iX. bins ! iX ! iY)))"
      using cl nonempty len row0 by (simp add: scanBins_cells)
    have "(\<forall>cl \<in> set clusters. (\<exists>h1 \<in> set hits. fst cl = Some h1)
            \<and> (snd cl = None \<or> (\<exists>h2 \<in> set hits. snd cl = Some h2)))
       \<and> (\<forall>h. lastInCell det hits h \<longrightarrow> (\<exists>cl \<in> set clusters. fst cl = Some h \<or> snd cl = Some h))
       \<and> (\<forall>h1 h2. (Some h1, Some h2) \<in> set clusters \<longrightarrow>
             snd (snd (binOfHit det h1), fst (binOfHit det h1)) + 1 < nX \<longrightarrow>
             (snd (binOfHit det h2), fst (binOfHit det h2)) =
               (fst (snd (binOfHit det h1), fst (binOfHit det h1)),
                snd (snd (binOfHit det h1), fst (binOfHit det h1)) + 1))"
      by (rule scan_grid_clusters [OF scan, where pos = "\<lambda>h. (snd (binOfHit det h), fst (binOfHit det h))"])
         (use held kept in auto)
    then show ?thesis
      using True by (auto simp add: prod_eq_iff)
  next
    case False
    then have scan: "clusters = scanCells None (map snd (gridCells nX nY (\<lambda>iX iY. bins ! iX ! iY)))"
      using cl nonempty len row0 by (simp add: scanBins_cells)
    have "(\<forall>cl \<in> set clusters. (\<exists>h1 \<in> set hits. fst cl = Some h1)
            \<and> (snd cl = None \<or> (\<exists>h2 \<in> set hits. snd cl = Some h2)))
       \<and> (\<forall>h. lastInCell det hits h \<longrightarrow> (\<exists>cl \<in> set clusters. fst cl = Some h \<or> snd cl = Some h))
       \<and> (\<forall>h1 h2. (Some h1, Some h2) \<in> set clusters \<longrightarrow>
             snd (binOfHit det h1) + 1 < nY \<longrightarrow>
             binOfHit det h2 = (fst (binOfHit det h1), snd (binOfHit det h1) + 1))"
      by (rule scan_grid_clusters [OF scan, where pos = "binOfHit det"])
         (use held kept in auto)
    then show ?thesis
      using False by auto
  qed
qed

text \<open>
  The amended claim C4 at the four hits of \<open>exampleBins\<close>: the cell of the hit 2 is the
  next after the cell of the hit 1, and the hit 3 is in a cluster.
\<close>

theorem clusters_of_one_surface_witness:
  "binOfHit (gridDetector 3 2 exampleBins) 2 =
     (fst (binOfHit (gridDetector 3 2 exampleBins) 1) + 1,
      snd (binOfHit (gridDetector 3 2 exampleBins) 1))
   \<and> (\<exists>cl \<in> set [(Some 1, Some 2), (Some 2, Some 3), (Some 3, None)].
         fst cl = Some 3 \<or> snd cl = Some 3)"
proof -
  have same: "\<forall>h \<in> set [0, 1, 2, 3]. referenceSurface (gridDetector 3 2 exampleBins) h =
      referenceSurface (gridDetector 3 2 exampleBins) (hd [0, 1, 2, 3])"
    by (simp add: gridDetector_simps)
  note clusters = clusters_of_one_surface [OF example_clusters same refl refl]
  have bin1: "fst (binOfHit (gridDetector 3 2 exampleBins) 1) + 1 < 3"
    by (simp add: binOfHit_gridDetector exampleBins_def)
  have last3: "lastInCell (gridDetector 3 2 exampleBins) [0, 1, 2, 3] 3"
    by (simp add: lastInCell_def binOfHit_gridDetector exampleBins_def)
  from clusters bin1 last3 show ?thesis
    by (simp add: gridDetector_simps)
qed

end
